theory Spec2Isabelle
  imports Main "HOL-Library.Sublist" "HOL-Library.Multiset" "HOL-Library.Word"
begin

section \<open>Go strings and the library functions the store calls\<close>

text \<open>
  A Go string is a sequence of bytes, so it is a \<^typ>\<open>string\<close> here (one \<^typ>\<open>char\<close>
  per byte) and \<open>len\<close> is \<^const>\<open>length\<close>.  The functions of this section are
  the ones of Go's standard library that \<^verbatim>\<open>backend/store.go\<close> calls
  (\<^verbatim>\<open>strings\<close>, \<^verbatim>\<open>unicode/utf8\<close>, \<^verbatim>\<open>path\<close>, \<^verbatim>\<open>encoding/hex\<close>, \<^verbatim>\<open>fmt\<close>);
  they are written from the library's documented behaviour, under its names.
\<close>

subsection \<open>UTF-8 decoding: what \<^verbatim>\<open>for _, r := range s\<close> sees\<close>

type_synonym rune = nat

definition RuneError :: rune where
  "RuneError = 0xFFFD"

definition byte :: "char \<Rightarrow> nat" where
  "byte c = of_char c"

text \<open>\<^verbatim>\<open>utf8.DecodeRuneInString\<close>: the first rune of \<open>s\<close> and its width in bytes; an
  invalid or truncated encoding is \<^const>\<open>RuneError\<close> of width 1.\<close>

fun DecodeRuneInString :: "string \<Rightarrow> rune \<times> nat" where
  "DecodeRuneInString [] = (RuneError, 0)"
| "DecodeRuneInString (c0 # s) =
     (let b0 = byte c0 in
      if b0 < 0x80 then (b0, 1)
      else if b0 < 0xC2 \<or> 0xF4 < b0 then (RuneError, 1)
      else
        let sz = (if b0 < 0xE0 then 2 else if b0 < 0xF0 then 3 else 4 :: nat);
            lo = (if b0 = 0xE0 then 0xA0 else if b0 = 0xF0 then 0x90 else 0x80 :: nat);
            hi = (if b0 = 0xED then 0x9F else if b0 = 0xF4 then 0x8F else 0xBF :: nat)
        in if length s < sz - 1 then (RuneError, 1)
           else
             let b1 = byte (s ! 0) in
             if b1 < lo \<or> hi < b1 then (RuneError, 1)
             else if sz = 2 then (b0 mod 32 * 64 + b1 mod 64, 2)
             else
               let b2 = byte (s ! 1) in
               if b2 < 0x80 \<or> 0xBF < b2 then (RuneError, 1)
               else if sz = 3 then (b0 mod 16 * 4096 + b1 mod 64 * 64 + b2 mod 64, 3)
               else
                 let b3 = byte (s ! 2) in
                 if b3 < 0x80 \<or> 0xBF < b3 then (RuneError, 1)
                 else (b0 mod 8 * 262144 + b1 mod 64 * 4096 + b2 mod 64 * 64 + b3 mod 64, 4))"

lemma DecodeRuneInString_width:
  assumes "s \<noteq> []"
  shows "1 \<le> snd (DecodeRuneInString s) \<and> snd (DecodeRuneInString s) \<le> length s"
proof (cases s)
  case Nil
  with assms show ?thesis by simp
next
  case (Cons c0 t)
  have "length t < 1 \<longleftrightarrow> t = []" by auto
  then show ?thesis
    unfolding Cons by (simp add: Let_def not_less Suc_le_eq)
qed

text \<open>The runes a \<^verbatim>\<open>range\<close> loop over a string yields, in order.\<close>

function runes :: "string \<Rightarrow> rune list" where
  "runes s =
     (if s = [] then []
      else fst (DecodeRuneInString s) # runes (drop (snd (DecodeRuneInString s)) s))"
  by pat_completeness auto
termination
proof (relation "measure length")
  show "wf (measure length)" by simp
next
  fix s :: string
  assume "s \<noteq> []"
  then have "1 \<le> snd (DecodeRuneInString s)"
    using DecodeRuneInString_width by blast
  with \<open>s \<noteq> []\<close> show "(drop (snd (DecodeRuneInString s)) s, s) \<in> measure length"
    by (cases s) auto
qed

declare runes.simps [simp del]

text \<open>\<^verbatim>\<open>utf8.RuneStart\<close>: the byte is not a continuation byte \<open>10xxxxxx\<close>.\<close>

definition RuneStart :: "char \<Rightarrow> bool" where
  "RuneStart c = (\<not> (0x80 \<le> byte c \<and> byte c \<le> 0xBF))"

text \<open>The backwards scan of \<^verbatim>\<open>utf8.DecodeLastRuneInString\<close>:
  \<^verbatim>\<open>for start--; start >= lim; start-- { if RuneStart(s[start]) { break } }\<close>,
  entered after the first decrement.\<close>

function scanStart :: "string \<Rightarrow> int \<Rightarrow> int \<Rightarrow> int" where
  "scanStart s start lim =
     (if lim \<le> start \<and> 0 \<le> start
      then (if RuneStart (s ! nat start) then start else scanStart s (start - 1) lim)
      else start)"
  by pat_completeness auto
termination
  by (relation "measure (\<lambda>(s, start, lim). nat (start + 1))") auto

declare scanStart.simps [simp del]

definition DecodeLastRuneInString :: "string \<Rightarrow> rune \<times> nat" where
  "DecodeLastRuneInString s =
     (let end = int (length s) in
      if end = 0 then (RuneError, 0)
      else
        let r = byte (s ! nat (end - 1)) in
        if r < 0x80 then (r, 1)
        else
          let lim = (if end - 4 < 0 then 0 else end - 4);
              start0 = scanStart s (end - 2) lim;
              start = (if start0 < 0 then 0 else start0);
              d = DecodeRuneInString (drop (nat start) s)
          in if start + int (snd d) \<noteq> end then (RuneError, 1) else d)"

lemma scanStart_le: "scanStart s start lim \<le> start"
proof (induction s start lim rule: scanStart.induct)
  case (1 s start lim)
  show ?case
  proof (cases "lim \<le> start \<and> 0 \<le> start \<and> \<not> RuneStart (s ! nat start)")
    case True
    then have "scanStart s start lim = scanStart s (start - 1) lim"
      by (subst scanStart.simps) simp
    with 1 True show ?thesis by simp
  next
    case False
    then show ?thesis by (subst scanStart.simps) auto
  qed
qed

lemma DecodeLastRuneInString_width:
  assumes ne: "s \<noteq> []"
  shows "1 \<le> snd (DecodeLastRuneInString s) \<and> snd (DecodeLastRuneInString s) \<le> length s"
proof -
  define lim where "lim = (if int (length s) - 4 < 0 then 0 else int (length s) - 4)"
  define start0 where "start0 = scanStart s (int (length s) - 2) lim"
  define start where "start = (if start0 < 0 then 0 else start0)"
  define d where "d = DecodeRuneInString (drop (nat start) s)"
  have len: "0 < length s" using ne by simp
  have "start0 \<le> int (length s) - 2"
    unfolding start0_def by (rule scanStart_le)
  then have lt: "nat start < length s" and nonneg: "0 \<le> start"
    using len by (auto simp: start_def)
  then have "drop (nat start) s \<noteq> []" by simp
  from DecodeRuneInString_width [OF this]
  have w: "1 \<le> snd d" "snd d \<le> length s - nat start"
    by (simp_all add: d_def)
  have "DecodeLastRuneInString s =
      (if byte (s ! nat (int (length s) - 1)) < 0x80
       then (byte (s ! nat (int (length s) - 1)), 1)
       else if start + int (snd d) \<noteq> int (length s) then (RuneError, 1) else d)"
    using len
    by (simp add: DecodeLastRuneInString_def Let_def lim_def start0_def start_def d_def
        del: DecodeRuneInString.simps)
  with w len show ?thesis by auto
qed

text \<open>\<^verbatim>\<open>string(rs)\<close> for a rune slice appends the UTF-8 encoding of each rune
  (\<^verbatim>\<open>utf8.AppendRune\<close>); surrogates and values above \<open>U+10FFFF\<close> encode as \<open>U+FFFD\<close>.\<close>

definition EncodeRune :: "rune \<Rightarrow> string" where
  "EncodeRune r =
     (if r < 0x80 then [char_of r]
      else if r < 0x800 then [char_of (0xC0 + r div 64), char_of (0x80 + r mod 64)]
      else if 0x10FFFF < r \<or> (0xD800 \<le> r \<and> r \<le> 0xDFFF)
        then [char_of (0xEF::nat), char_of (0xBF::nat), char_of (0xBD::nat)]
      else if r < 0x10000
        then [char_of (0xE0 + r div 4096), char_of (0x80 + r div 64 mod 64),
              char_of (0x80 + r mod 64)]
      else [char_of (0xF0 + r div 262144), char_of (0x80 + r div 4096 mod 64),
            char_of (0x80 + r div 64 mod 64), char_of (0x80 + r mod 64)])"

definition string_of_runes :: "rune list \<Rightarrow> string" where
  "string_of_runes rs = concat (map EncodeRune rs)"

subsection \<open>Package \<^verbatim>\<open>strings\<close>\<close>

text \<open>\<^verbatim>\<open>unicode.IsSpace\<close>: the characters with Unicode's White Space property.\<close>

definition IsSpace :: "rune \<Rightarrow> bool" where
  "IsSpace r =
     (r = 0x09 \<or> r = 0x0A \<or> r = 0x0B \<or> r = 0x0C \<or> r = 0x0D \<or> r = 0x20 \<or> r = 0x85
      \<or> r = 0xA0 \<or> r = 0x1680 \<or> (0x2000 \<le> r \<and> r \<le> 0x200A) \<or> r = 0x2028
      \<or> r = 0x2029 \<or> r = 0x202F \<or> r = 0x205F \<or> r = 0x3000)"

text \<open>\<^verbatim>\<open>strings.TrimLeftFunc(s, unicode.IsSpace)\<close> and
  \<^verbatim>\<open>strings.TrimRightFunc(s, unicode.IsSpace)\<close>: the leading (trailing) code points that
  are white space are removed; code points are read forwards by
  \<^const>\<open>DecodeRuneInString\<close> and backwards by \<^const>\<open>DecodeLastRuneInString\<close>.\<close>

function TrimLeftSpace :: "string \<Rightarrow> string" where
  "TrimLeftSpace s =
     (if s = [] then []
      else if IsSpace (fst (DecodeRuneInString s))
        then TrimLeftSpace (drop (snd (DecodeRuneInString s)) s)
      else s)"
  by pat_completeness auto
termination
proof (relation "measure length")
  show "wf (measure length)" by simp
next
  fix s :: string
  assume "s \<noteq> []"
  then have "1 \<le> snd (DecodeRuneInString s)"
    using DecodeRuneInString_width by blast
  with \<open>s \<noteq> []\<close> show "(drop (snd (DecodeRuneInString s)) s, s) \<in> measure length"
    by (cases s) auto
qed

declare TrimLeftSpace.simps [simp del]

function TrimRightSpace :: "string \<Rightarrow> string" where
  "TrimRightSpace s =
     (if s = [] then []
      else if IsSpace (fst (DecodeLastRuneInString s))
        then TrimRightSpace (take (length s - snd (DecodeLastRuneInString s)) s)
      else s)"
  by pat_completeness auto
termination
proof (relation "measure length")
  show "wf (measure length)" by simp
next
  fix s :: string
  assume "s \<noteq> []"
  then have "1 \<le> snd (DecodeLastRuneInString s)"
    using DecodeLastRuneInString_width by blast
  with \<open>s \<noteq> []\<close>
  show "(take (length s - snd (DecodeLastRuneInString s)) s, s) \<in> measure length"
    by (cases s) auto
qed

declare TrimRightSpace.simps [simp del]

text \<open>\<^verbatim>\<open>strings.TrimSpace\<close>: leading and trailing white space, as defined by Unicode,
  removed.\<close>

definition TrimSpace :: "string \<Rightarrow> string" where
  "TrimSpace s = TrimRightSpace (TrimLeftSpace s)"

text \<open>\<^verbatim>\<open>strings.Index(s, substr)\<close>: the byte index of the first instance of
  \<open>substr\<close> in \<open>s\<close>, or \<open>-1\<close>.\<close>

fun Index :: "string \<Rightarrow> string \<Rightarrow> int" where
  "Index [] substr = (if substr = [] then 0 else -1)"
| "Index (c # s) substr =
     (if prefix substr (c # s) then 0
      else (let i = Index s substr in if i < 0 then -1 else i + 1))"

definition Contains :: "string \<Rightarrow> string \<Rightarrow> bool" where
  "Contains s substr = (0 \<le> Index s substr)"

text \<open>\<^verbatim>\<open>strings.Split(s, sep)\<close> for a separator of one byte (the store splits on
  \<^verbatim>\<open>"\n"\<close> only): the pieces between the separators, \<open>[s]\<close> when there is none.\<close>

lemma Index_bound: "0 \<le> Index s substr \<Longrightarrow> Index s substr + int (length substr) \<le> int (length s)"
proof (induction s)
  case Nil
  then show ?case by (simp split: if_splits)
next
  case (Cons c s)
  show ?case
  proof (cases "prefix substr (c # s)")
    case True
    then have "length substr \<le> length (c # s)" by (rule prefix_length_le)
    with True show ?thesis by simp
  next
    case False
    with Cons show ?thesis by (auto simp: Let_def split: if_splits)
  qed
qed

function Split :: "string \<Rightarrow> char \<Rightarrow> string list" where
  "Split s sep =
     (if Index s [sep] < 0 then [s]
      else take (nat (Index s [sep])) s # Split (drop (nat (Index s [sep]) + 1) s) sep)"
  by pat_completeness auto
termination
proof (relation "measure (\<lambda>(s, sep). length s)")
  show "wf (measure (\<lambda>(s, sep). length s))" by simp
next
  fix s :: string and sep :: char
  assume "\<not> Index s [sep] < 0"
  then have "Index s [sep] + 1 \<le> int (length s)"
    using Index_bound [of s "[sep]"] by simp
  moreover assume "\<not> Index s [sep] < 0"
  ultimately show "((drop (nat (Index s [sep]) + 1) s, sep), (s, sep)) \<in> measure (\<lambda>(s, sep). length s)"
    by (cases s) auto
qed

declare Split.simps [simp del]

text \<open>\<^verbatim>\<open>strings.ReplaceAll(s, old, new)\<close> for a non-empty \<open>old\<close> (the store replaces
  the two bytes of \<open>U+00A0\<close>): the non-overlapping instances of \<open>old\<close>, found from
  the left, are replaced by \<open>new\<close>.\<close>

function ReplaceAll :: "string \<Rightarrow> string \<Rightarrow> string \<Rightarrow> string" where
  "ReplaceAll s old new =
     (if s = [] \<or> old = [] then s
      else if prefix old s then new @ ReplaceAll (drop (length old) s) old new
      else hd s # ReplaceAll (tl s) old new)"
  by pat_completeness auto
termination
  by (relation "measure (\<lambda>(s, old, new). length s)") (auto simp: neq_Nil_conv)

declare ReplaceAll.simps [simp del]

text \<open>\<^verbatim>\<open>strings.Join(elems, sep)\<close>.\<close>

fun strings_Join :: "string list \<Rightarrow> string \<Rightarrow> string" where
  "strings_Join [] sep = []"
| "strings_Join [e] sep = e"
| "strings_Join (e # es) sep = e @ sep @ strings_Join es sep"

subsection \<open>Package \<^verbatim>\<open>path\<close> (and \<^verbatim>\<open>path/filepath\<close> on a system whose separator is a slash)\<close>

text \<open>
  \<^verbatim>\<open>path.Clean\<close> works through the elements between slashes from the left: an empty
  element and \<open>.\<close> are dropped; \<open>..\<close> removes the element before it when there is
  one that is not itself \<open>..\<close>, is dropped at the start of a rooted path, and is kept
  otherwise; any other element is kept.  \<open>out\<close> is the output written so far.
\<close>

fun cleanElems :: "bool \<Rightarrow> string list \<Rightarrow> string list \<Rightarrow> string list" where
  "cleanElems rooted [] out = out"
| "cleanElems rooted (e # es) out =
     (if e = [] \<or> e = ''.'' then cleanElems rooted es out
      else if e = ''..'' then
        (if out \<noteq> [] \<and> last out \<noteq> ''..'' then cleanElems rooted es (butlast out)
         else if \<not> rooted then cleanElems rooted es (out @ [''..''])
         else cleanElems rooted es out)
      else cleanElems rooted es (out @ [e]))"

definition Clean :: "string \<Rightarrow> string" where
  "Clean p =
     (if p = [] then ''.''
      else
        let rooted = (hd p = CHR ''/'');
            out = cleanElems rooted (Split p (CHR ''/'')) []
        in if rooted then CHR ''/'' # strings_Join out ''/''
           else if out = [] then ''.''
           else strings_Join out ''/'')"

text \<open>\<^verbatim>\<open>path.Join\<close> and \<^verbatim>\<open>filepath.Join\<close>: empty elements are ignored, the rest is
  joined by slashes and cleaned; the result is empty when every element is.\<close>

definition Join :: "string list \<Rightarrow> string" where
  "Join elem =
     (let es = filter (\<lambda>e. e \<noteq> []) elem
      in if es = [] then [] else Clean (strings_Join es ''/''))"

text \<open>\<^verbatim>\<open>path.Dir\<close> and \<^verbatim>\<open>filepath.Dir\<close>: the path up to and including its last slash,
  cleaned.\<close>

definition Dir :: "string \<Rightarrow> string" where
  "Dir p = Clean (rev (dropWhile (\<lambda>c. c \<noteq> CHR ''/'') (rev p)))"

text \<open>\<^verbatim>\<open>filepath.FromSlash\<close> replaces each slash by the separator, which is a slash.\<close>

definition FromSlash :: "string \<Rightarrow> string" where
  "FromSlash p = p"

subsection \<open>Packages \<^verbatim>\<open>encoding/hex\<close>, \<^verbatim>\<open>crypto/sha1\<close> and \<^verbatim>\<open>fmt\<close>\<close>

definition hextable :: string where
  "hextable = ''0123456789abcdef''"

text \<open>\<^verbatim>\<open>hex.EncodeToString\<close>: two digits of \<^const>\<open>hextable\<close> for each byte.\<close>

definition EncodeToString :: "string \<Rightarrow> string" where
  "EncodeToString src =
     concat (map (\<lambda>c. [hextable ! (byte c div 16), hextable ! (byte c mod 16)]) src)"

text \<open>A SHA-1 digest is 160 bits; \<^verbatim>\<open>h.Sum(nil)\<close> is its 20 bytes, the most
  significant first.\<close>

type_synonym digest = "160 word"

definition Sum :: "digest \<Rightarrow> string" where
  "Sum d = map (\<lambda>i. char_of (unat (drop_bit (8 * (19 - i)) d))) [0..<20]"

text \<open>The verb \<^verbatim>\<open>%d\<close> of \<^verbatim>\<open>fmt.Sprintf\<close>: the decimal digits, after a minus sign for
  a negative number.\<close>

function digits :: "nat \<Rightarrow> string" where
  "digits n = (if n < 10 then [char_of (48 + n)] else digits (n div 10) @ [char_of (48 + n mod 10)])"
  by pat_completeness auto
termination
  by (relation "measure id") auto

declare digits.simps [simp del]

definition format_d :: "int \<Rightarrow> string" where
  "format_d i = (if i < 0 then CHR ''-'' # digits (nat (- i)) else digits (nat i))"

section \<open>The data model of \<^verbatim>\<open>backend/store.go\<close>\<close>

text \<open>The structures that \<^verbatim>\<open>encoding/xml\<close> fills from \<^verbatim>\<open>container.xml\<close> and from the
  package document.  A field whose element or attribute is absent keeps Go's zero value,
  the empty string or the empty list.\<close>

record rootfile =
  FullPath :: string

record containerXML =
  Rootfiles :: "rootfile list"

record OPFMetadata =
  Title :: string
  Creator :: string

record OPFItem =
  ID :: string
  Href :: string
  MediaType :: string

record OPFItemref =
  IDRef :: string

record OPFPackage =
  Meta :: OPFMetadata
  Manifest :: "OPFItem list"
  Spine :: "OPFItemref list"

record NavItem =
  Href :: string
  Text :: string

record NavDoc =
  Items :: "NavItem list"

text \<open>A catalogued book.  \<open>OPF\<close> and \<open>TOC\<close> are pointers in the source; \<open>ingest\<close>, the
  only writer of the catalogue, always sets both.  The distinction of a nil slice from an
  empty one is not kept: both are \<open>[]\<close>.\<close>

record BookInfo =
  ID :: string
  Title :: string
  Author :: string
  RootFile :: string
  RootFS :: string
  OPF :: OPFPackage
  TOC :: NavDoc

record SpineItem =
  IDRef :: string
  Href :: string
  Type :: string
  Title :: string

text \<open>What \<open>GetBook\<close> and \<open>ListBooks\<close> encode: the fields of \<open>BookInfo\<close> that are not
  tagged \<^verbatim>\<open>json:"-"\<close>, under their JSON keys \<open>id\<close>, \<open>title\<close>, \<open>author\<close> and
  \<open>rootFile\<close>.\<close>

record BookJSON =
  json_id :: string
  json_title :: string
  json_author :: string
  json_rootFile :: string

record Store =
  rootDir :: string
  books :: "string \<rightharpoonup> BookInfo"

definition NewStore :: "string \<Rightarrow> Store" where
  "NewStore root = \<lparr>rootDir = root, books = Map.empty\<rparr>"

subsection \<open>The environment\<close>

text \<open>
  Errors are values.  The regular files on disk are a map from cleaned paths to contents.
  Everything the store asks of the operating system and of libraries whose result it does
  not determine is a field of the environment: whether a directory or a file can be
  created, how many bytes \<^verbatim>\<open>io.Copy\<close> writes and whether it fails, whether a file is
  unreadable, what \<^verbatim>\<open>archive/zip\<close> finds in the bytes of an archive, what
  \<^verbatim>\<open>xml.Unmarshal\<close> makes of a document for each of the two target structures, the SHA-1
  digest, and \<^verbatim>\<open>sort.Slice\<close> (which promises a sorted permutation, not a stable one).
\<close>

datatype error =
  PathError | CopyError | NotExist | FormatError | SyntaxError | NoRootfile

type_synonym disk = "string \<rightharpoonup> string"

record zipFile =
  Name :: string
  IsDir :: bool
  Open :: "error + string"

record env =
  MkdirAll :: "string \<Rightarrow> error option"
  OpenFile :: "string \<Rightarrow> error option"
  ioCopy :: "string \<Rightarrow> string \<Rightarrow> nat \<times> error option"
  unreadable :: "string \<Rightarrow> error option"
  zipNewReader :: "string \<Rightarrow> error + zipFile list"
  UnmarshalContainer :: "string \<Rightarrow> error + containerXML"
  UnmarshalPackage :: "string \<Rightarrow> error + OPFPackage"
  sha1 :: "string \<Rightarrow> digest"
  sortSlice :: "(string \<Rightarrow> string \<Rightarrow> bool) \<Rightarrow> string list \<Rightarrow> string list"

text \<open>\<^verbatim>\<open>os.ReadFile\<close>: the contents of the file, or an error when the file cannot be read
  or does not exist.\<close>

definition ReadFile :: "env \<Rightarrow> disk \<Rightarrow> string \<Rightarrow> error + string" where
  "ReadFile env dsk name =
     (case unreadable env name of
        Some e \<Rightarrow> Inl e
      | None \<Rightarrow> (case dsk name of None \<Rightarrow> Inl NotExist | Some data \<Rightarrow> Inr data))"

text \<open>\<^verbatim>\<open>zip.OpenReader\<close>: the entries of the archive stored at the path.\<close>

definition OpenReader :: "env \<Rightarrow> disk \<Rightarrow> string \<Rightarrow> error + zipFile list" where
  "OpenReader env dsk name =
     (case ReadFile env dsk name of Inl e \<Rightarrow> Inl e | Inr data \<Rightarrow> zipNewReader env data)"

text \<open>What \<^verbatim>\<open>sort.Slice(x, less)\<close> promises for the \<open>less\<close> of \<open>findNavItem\<close>: the
  same elements, none of them before a shorter one.\<close>

definition sortSlice_sorts :: "env \<Rightarrow> bool" where
  "sortSlice_sorts env =
     (\<forall>xs. mset (sortSlice env (\<lambda>a b. length a < length b) xs) = mset xs
         \<and> sorted_wrt (\<lambda>a b. \<not> length b < length a)
               (sortSlice env (\<lambda>a b. length a < length b) xs))"

section \<open>The functions of \<^verbatim>\<open>backend/store.go\<close>\<close>

subsection \<open>Helpers\<close>

definition normJoin :: "string \<Rightarrow> string \<Rightarrow> string" where
  "normJoin base rel = (if rel = [] then base else Clean (Join [base, rel]))"

definition between :: "string \<Rightarrow> string \<Rightarrow> string \<Rightarrow> string" where
  "between s a b =
     (let i = Index s a in
      if i < 0 then []
      else
        let s' = drop (nat i + length a) s;
            j = Index s' b
        in if j < 0 then [] else take (nat j) s')"

text \<open>The loop of \<open>stripTags\<close> over the runes of the line: \<open>inside\<close> is the flag
  \<^verbatim>\<open>in\<close>, \<open>out\<close> the runes kept so far.\<close>

fun stripLoop :: "rune list \<Rightarrow> bool \<Rightarrow> rune list \<Rightarrow> rune list" where
  "stripLoop [] inside out = out"
| "stripLoop (r # rs) inside out =
     (if r = 0x3C then stripLoop rs True out
      else if r = 0x3E then stripLoop rs False out
      else if \<not> inside then stripLoop rs inside (out @ [r])
      else stripLoop rs inside out)"

definition nbsp :: string where
  "nbsp = [CHR 0xC2, CHR 0xA0]"

definition stripTags :: "string \<Rightarrow> string" where
  "stripTags s =
     TrimSpace (ReplaceAll (string_of_runes (stripLoop (runes s) False [])) nbsp '' '')"

subsection \<open>Reading the container, the package and the navigation document\<close>

definition findRootfile :: "env \<Rightarrow> disk \<Rightarrow> string \<Rightarrow> error + string" where
  "findRootfile env dsk root =
     (case ReadFile env dsk (Join [root, ''META-INF'', ''container.xml'']) of
        Inl e \<Rightarrow> Inl e
      | Inr data \<Rightarrow>
          (case UnmarshalContainer env data of
             Inl e \<Rightarrow> Inl e
           | Inr c \<Rightarrow>
               if length (Rootfiles c) = 0 then Inl NoRootfile
               else Inr (FullPath (Rootfiles c ! 0))))"

definition parseOPF :: "env \<Rightarrow> disk \<Rightarrow> string \<Rightarrow> error + OPFPackage" where
  "parseOPF env dsk name =
     (case ReadFile env dsk name of
        Inl e \<Rightarrow> Inl e
      | Inr data \<Rightarrow>
          (case UnmarshalPackage env data of Inl e \<Rightarrow> Inl e | Inr p \<Rightarrow> Inr p))"

text \<open>The first loop of \<open>findNavItem\<close>, appending to \<open>candidates\<close>.\<close>

fun navCandidates :: "OPFItem list \<Rightarrow> string list \<Rightarrow> string list" where
  "navCandidates [] candidates = candidates"
| "navCandidates (it # its) candidates =
     (if Contains (OPFItem.Href it) ''nav'' \<or> Contains (OPFItem.Href it) ''toc''
      then navCandidates its (candidates @ [OPFItem.Href it])
      else navCandidates its candidates)"

definition findNavItem :: "env \<Rightarrow> OPFPackage \<Rightarrow> string" where
  "findNavItem env p =
     (let candidates = navCandidates (Manifest p) []
      in if length candidates = 0 then []
         else sortSlice env (\<lambda>a b. length a < length b) candidates ! 0)"

text \<open>The loop of \<open>extractNav\<close> over the lines; \<open>CHR 0x22\<close> is the double quote.\<close>

fun navLoop :: "string list \<Rightarrow> NavItem list \<Rightarrow> NavItem list" where
  "navLoop [] items = items"
| "navLoop (l # ls) items =
     (let line = TrimSpace l in
      if \<not> Contains line ''<a '' then navLoop ls items
      else
        let href = between line (''href='' @ [CHR 0x22]) [CHR 0x22];
            text = stripTags line
        in if href \<noteq> [] \<and> text \<noteq> []
           then navLoop ls (items @ [\<lparr>NavItem.Href = href, Text = text\<rparr>])
           else navLoop ls items)"

definition extractNav :: "env \<Rightarrow> disk \<Rightarrow> string \<Rightarrow> error + NavItem list" where
  "extractNav env dsk navPath =
     (case ReadFile env dsk navPath of
        Inl e \<Rightarrow> Inl e
      | Inr t \<Rightarrow> Inr (navLoop (Split t (CHR 0x0A)) []))"

subsection \<open>Unpacking the archive\<close>

text \<open>The loop of \<open>unzipFile\<close> over \<^verbatim>\<open>r.File\<close>.  Opening the destination with
  \<^verbatim>\<open>O_CREATE|O_TRUNC\<close> leaves an empty file, into which \<^verbatim>\<open>io.Copy\<close> writes.\<close>

fun unzipLoop :: "env \<Rightarrow> string \<Rightarrow> zipFile list \<Rightarrow> disk \<Rightarrow> error option \<times> disk" where
  "unzipLoop env dest [] dsk = (None, dsk)"
| "unzipLoop env dest (f # fs) dsk =
     (let p = Join [dest, FromSlash (Name f)] in
      if IsDir f then unzipLoop env dest fs dsk
      else
        case MkdirAll env (Dir p) of
          Some e \<Rightarrow> (Some e, dsk)
        | None \<Rightarrow>
            (case Open f of
               Inl e \<Rightarrow> (Some e, dsk)
             | Inr rc \<Rightarrow>
                 (case OpenFile env p of
                    Some e \<Rightarrow> (Some e, dsk)
                  | None \<Rightarrow>
                      (case ioCopy env p rc of
                         (n, Some e) \<Rightarrow> (Some e, dsk(p \<mapsto> take n rc))
                       | (n, None) \<Rightarrow> unzipLoop env dest fs (dsk(p \<mapsto> take n rc))))))"

definition unzipFile :: "env \<Rightarrow> disk \<Rightarrow> string \<Rightarrow> string \<Rightarrow> error option \<times> disk" where
  "unzipFile env dsk zipPath dest =
     (case OpenReader env dsk zipPath of
        Inl e \<Rightarrow> (Some e, dsk)
      | Inr r \<Rightarrow> unzipLoop env dest r dsk)"

subsection \<open>Ingestion\<close>

text \<open>\<^verbatim>\<open>multipart.FileHeader\<close>, as far as \<open>ingest\<close> reads it.\<close>

record FileHeader =
  Filename :: string
  Size :: int

text \<open>The first four lines of \<open>ingest\<close>: the identifier is the first 12 hexadecimal
  digits of the SHA-1 digest of the file name followed by
  \<^verbatim>\<open>fmt.Sprintf("-%d-%d", header.Size, time.Now().UnixNano())\<close>; \<open>now\<close> is the reading
  of the clock.\<close>

definition bookID :: "env \<Rightarrow> FileHeader \<Rightarrow> int \<Rightarrow> string" where
  "bookID env header now =
     take 12 (EncodeToString (Sum (sha1 env
        (Filename header @ ''-'' @ format_d (Size header) @ ''-'' @ format_d now))))"

text \<open>\<open>ingest\<close> takes the reading of the clock, the bytes of the uploaded file and its
  header, and the state: the store and the disk.  It returns the error, or the identifier
  and the record, and the new state.\<close>

definition ingest ::
  "env \<Rightarrow> int \<Rightarrow> string \<Rightarrow> FileHeader \<Rightarrow> Store \<times> disk
     \<Rightarrow> (error + string \<times> BookInfo) \<times> (Store \<times> disk)" where
  "ingest env now file header st =
     (let s = fst st; dsk = snd st;
          id = bookID env header now;
          bookDir = Join [rootDir s, id]
      in
      case MkdirAll env bookDir of
        Some e \<Rightarrow> (Inl e, (s, dsk))
      | None \<Rightarrow>
          let epubPath = Join [bookDir, ''book.epub''] in
          (case OpenFile env epubPath of
             Some e \<Rightarrow> (Inl e, (s, dsk))
           | None \<Rightarrow>
               (case ioCopy env epubPath file of
                  (n, Some e) \<Rightarrow> (Inl e, (s, dsk(epubPath \<mapsto> take n file)))
                | (n, None) \<Rightarrow>
                    let root = Join [bookDir, ''unpacked''] in
                    (case unzipFile env (dsk(epubPath \<mapsto> take n file)) epubPath root of
                       (Some e, dsk') \<Rightarrow> (Inl e, (s, dsk'))
                     | (None, dsk') \<Rightarrow>
                         (case findRootfile env dsk' root of
                            Inl e \<Rightarrow> (Inl e, (s, dsk'))
                          | Inr rootfile \<Rightarrow>
                              (case parseOPF env dsk' (Join [root, FromSlash rootfile]) of
                                 Inl e \<Rightarrow> (Inl e, (s, dsk'))
                               | Inr opf \<Rightarrow>
                                   let nav = findNavItem env opf;
                                       toc =
                                         (if nav \<noteq> [] then
                                            \<lparr>Items =
                                               (case extractNav env dsk'
                                                       (Join [root, FromSlash (normJoin (Dir rootfile) nav)]) of
                                                  Inl e \<Rightarrow> []
                                                | Inr items \<Rightarrow> items)\<rparr>
                                          else \<lparr>Items = []\<rparr>);
                                       info =
                                         \<lparr>BookInfo.ID = id,
                                          Title = TrimSpace (OPFMetadata.Title (Meta opf)),
                                          Author = TrimSpace (Creator (Meta opf)),
                                          RootFile = rootfile,
                                          RootFS = root,
                                          OPF = opf,
                                          TOC = toc\<rparr>
                                   in (Inr (id, info),
                                       (s\<lparr>books := (books s)(id \<mapsto> info)\<rparr>, dsk'))))))))"

subsection \<open>The read operations\<close>

text \<open>A handler that answers \<^verbatim>\<open>http.NotFound\<close> returns \<open>None\<close>; otherwise it returns the
  value it encodes as JSON.\<close>

definition GetBookByID :: "Store \<Rightarrow> string \<Rightarrow> BookInfo option" where
  "GetBookByID s k = books s k"

definition bookJSON :: "BookInfo \<Rightarrow> BookJSON" where
  "bookJSON b =
     \<lparr>json_id = BookInfo.ID b, json_title = BookInfo.Title b, json_author = Author b,
      json_rootFile = RootFile b\<rparr>"

text \<open>\<open>ListBooks\<close> ranges over a Go map, whose order is not fixed: the answer is a set.\<close>

definition ListBooks :: "Store \<Rightarrow> BookJSON set" where
  "ListBooks s = bookJSON ` ran (books s)"

definition GetBook :: "Store \<Rightarrow> string \<Rightarrow> BookJSON option" where
  "GetBook s k = (case GetBookByID s k of None \<Rightarrow> None | Some b \<Rightarrow> Some (bookJSON b))"

text \<open>The two loops of \<open>GetSpine\<close>.  A later manifest item replaces an earlier one with
  the same identifier; an identifier that is not in the map reads as the zero
  \<open>OPFItem\<close>.\<close>

fun itemsByID :: "OPFItem list \<Rightarrow> (string \<rightharpoonup> OPFItem) \<Rightarrow> (string \<rightharpoonup> OPFItem)" where
  "itemsByID [] m = m"
| "itemsByID (it # its) m = itemsByID its (m(OPFItem.ID it \<mapsto> it))"

definition zeroItem :: OPFItem where
  "zeroItem = \<lparr>OPFItem.ID = [], Href = [], MediaType = []\<rparr>"

fun spineLoop ::
  "BookInfo \<Rightarrow> (string \<rightharpoonup> OPFItem) \<Rightarrow> OPFItemref list \<Rightarrow> SpineItem list \<Rightarrow> SpineItem list" where
  "spineLoop b m [] out = out"
| "spineLoop b m (sp # sps) out =
     (let it = (case m (OPFItemref.IDRef sp) of None \<Rightarrow> zeroItem | Some it \<Rightarrow> it)
      in spineLoop b m sps
           (out @ [\<lparr>SpineItem.IDRef = OPFItemref.IDRef sp,
                     Href = normJoin (Dir (RootFile b)) (OPFItem.Href it),
                     Type = MediaType it,
                     Title = []\<rparr>]))"

definition GetSpine :: "Store \<Rightarrow> string \<Rightarrow> SpineItem list option" where
  "GetSpine s k =
     (case GetBookByID s k of
        None \<Rightarrow> None
      | Some b \<Rightarrow>
          Some (spineLoop b (itemsByID (Manifest (OPF b)) Map.empty) (Spine (OPF b)) []))"

definition GetTOC :: "Store \<Rightarrow> string \<Rightarrow> NavDoc option" where
  "GetTOC s k = (case GetBookByID s k of None \<Rightarrow> None | Some b \<Rightarrow> Some (TOC b))"

section \<open>A worked example\<close>

text \<open>An insertion sort, as \<^verbatim>\<open>sort.Slice\<close> runs on a short slice: an element moves
  past the elements that are less than it, so equal elements keep their order.\<close>

fun insertBy :: "('a \<Rightarrow> 'a \<Rightarrow> bool) \<Rightarrow> 'a \<Rightarrow> 'a list \<Rightarrow> 'a list" where
  "insertBy lt x [] = [x]"
| "insertBy lt x (y # ys) = (if lt y x then y # insertBy lt x ys else x # y # ys)"

definition insertionSort :: "('a \<Rightarrow> 'a \<Rightarrow> bool) \<Rightarrow> 'a list \<Rightarrow> 'a list" where
  "insertionSort lt xs = foldr (insertBy lt) xs []"

text \<open>Two archives.  The first is the archive of the end-to-end scenario: the container
  points to \<open>OEBPS/content.opf\<close>, the manifest has the chapter and the navigation
  document, the spine has the chapter.  The second has no navigation document, no title,
  and a spine entry \<open>ghost\<close> that the manifest does not declare.\<close>

text \<open>An attribute value, in double quotes.\<close>

definition dq :: "string \<Rightarrow> string" where
  "dq s = CHR 0x22 # s @ [CHR 0x22]"

definition example_container :: string where
  "example_container =
     ''<container><rootfiles><rootfile full-path='' @ dq ''OEBPS/content.opf'' @
     ''/></rootfiles></container>''"

definition two_rootfiles_container :: string where
  "two_rootfiles_container =
     ''<container><rootfiles><rootfile full-path='' @ dq ''a.opf'' @
     ''/><rootfile full-path='' @ dq ''b.opf'' @ ''/></rootfiles></container>''"

definition no_rootfile_container :: string where
  "no_rootfile_container = ''<container><rootfiles/></container>''"

definition example_package :: string where
  "example_package =
     ''<package xmlns:dc='' @ dq ''http://purl.org/dc/elements/1.1/'' @ ''><metadata>'' @
     ''<dc:title>  A Tale </dc:title><dc:creator>Jane Doe</dc:creator></metadata><manifest>'' @
     ''<item id='' @ dq ''c1'' @ '' href='' @ dq ''chap1.xhtml'' @
       '' media-type='' @ dq ''application/xhtml+xml'' @ ''/>'' @
     ''<item id='' @ dq ''nav'' @ '' href='' @ dq ''nav.xhtml'' @
       '' media-type='' @ dq ''application/xhtml+xml'' @ ''/>'' @
     ''</manifest><spine><itemref idref='' @ dq ''c1'' @ ''/></spine></package>''"

definition second_package :: string where
  "second_package =
     ''<package xmlns:dc='' @ dq ''http://purl.org/dc/elements/1.1/'' @ ''><metadata>'' @
     ''<dc:creator> Jane Doe'' @ [CHR 0x0A] @ ''</dc:creator></metadata><manifest>'' @
     ''<item id='' @ dq ''c1'' @ '' href='' @ dq ''chap1.xhtml'' @
       '' media-type='' @ dq ''application/xhtml+xml'' @ ''/>'' @
     ''</manifest><spine><itemref idref='' @ dq ''c1'' @ ''/><itemref idref='' @ dq ''ghost'' @
     ''/></spine></package>''"

definition example_nav :: string where
  "example_nav =
     ''<nav><ol>'' @ [CHR 0x0A] @
     ''  <li><a href='' @ [CHR 0x22] @ ''chap1.xhtml'' @ [CHR 0x22] @ ''>Chapter 1</a></li>'' @ [CHR 0x0D, CHR 0x0A] @
     ''</ol></nav>''"

definition example_files :: "zipFile list" where
  "example_files =
     [\<lparr>Name = ''META-INF/'', IsDir = True, Open = Inr []\<rparr>,
      \<lparr>Name = ''META-INF/container.xml'', IsDir = False, Open = Inr example_container\<rparr>,
      \<lparr>Name = ''OEBPS/content.opf'', IsDir = False, Open = Inr example_package\<rparr>,
      \<lparr>Name = ''OEBPS/nav.xhtml'', IsDir = False, Open = Inr example_nav\<rparr>,
      \<lparr>Name = ''OEBPS/chap1.xhtml'', IsDir = False, Open = Inr ''<html/>''\<rparr>]"

definition second_files :: "zipFile list" where
  "second_files =
     [\<lparr>Name = ''META-INF/container.xml'', IsDir = False, Open = Inr example_container\<rparr>,
      \<lparr>Name = ''OEBPS/content.opf'', IsDir = False, Open = Inr second_package\<rparr>,
      \<lparr>Name = ''OEBPS/chap1.xhtml'', IsDir = False, Open = Inr ''<html/>''\<rparr>]"

definition example_opf :: OPFPackage where
  "example_opf =
     \<lparr>Meta = \<lparr>OPFMetadata.Title = ''  A Tale '', Creator = ''Jane Doe''\<rparr>,
      Manifest =
        [\<lparr>OPFItem.ID = ''c1'', Href = ''chap1.xhtml'', MediaType = ''application/xhtml+xml''\<rparr>,
         \<lparr>OPFItem.ID = ''nav'', Href = ''nav.xhtml'', MediaType = ''application/xhtml+xml''\<rparr>],
      Spine = [\<lparr>OPFItemref.IDRef = ''c1''\<rparr>]\<rparr>"

definition second_opf :: OPFPackage where
  "second_opf =
     \<lparr>Meta = \<lparr>OPFMetadata.Title = [], Creator = '' Jane Doe'' @ [CHR 0x0A]\<rparr>,
      Manifest =
        [\<lparr>OPFItem.ID = ''c1'', Href = ''chap1.xhtml'', MediaType = ''application/xhtml+xml''\<rparr>],
      Spine = [\<lparr>OPFItemref.IDRef = ''c1''\<rparr>, \<lparr>OPFItemref.IDRef = ''ghost''\<rparr>]\<rparr>"

text \<open>An environment in which the disk never fails, the decoders know the documents
  above, and the digest is a stand-in that depends on the bytes hashed.\<close>

definition example_env :: env where
  "example_env =
     \<lparr>MkdirAll = (\<lambda>p. None),
      OpenFile = (\<lambda>p. None),
      ioCopy = (\<lambda>p data. (length data, None)),
      unreadable = (\<lambda>p. None),
      zipNewReader =
        (\<lambda>data. if data = ''PK-example'' then Inr example_files
                else if data = ''PK-second'' then Inr second_files
                else Inl FormatError),
      UnmarshalContainer =
        (\<lambda>data. if data = example_container
                  then Inr \<lparr>Rootfiles = [\<lparr>FullPath = ''OEBPS/content.opf''\<rparr>]\<rparr>
                else if data = two_rootfiles_container
                  then Inr \<lparr>Rootfiles = [\<lparr>FullPath = ''a.opf''\<rparr>, \<lparr>FullPath = ''b.opf''\<rparr>]\<rparr>
                else if data = no_rootfile_container then Inr \<lparr>Rootfiles = []\<rparr>
                else Inl SyntaxError),
      UnmarshalPackage =
        (\<lambda>data. if data = example_package then Inr example_opf
                else if data = second_package then Inr second_opf
                else Inl SyntaxError),
      sha1 =
        (\<lambda>data. word_of_nat (sum_list (map byte data))
                  * 0x0123456789abcdef0123456789abcdef01234567),
      sortSlice = insertionSort\<rparr>"

definition example_header :: FileHeader where
  "example_header = \<lparr>Filename = ''tale.epub'', Size = 10\<rparr>"

definition example_start :: "Store \<times> disk" where
  "example_start = (NewStore ''data/books'', Map.empty)"

text \<open>The disk after each archive is unpacked, and the records and stores that
  result.\<close>

definition example_unpacked :: "disk \<Rightarrow> disk" where
  "example_unpacked dsk =
     dsk(''data/books/e6f8091a2b3c/book.epub'' \<mapsto> ''PK-example'',
         ''data/books/e6f8091a2b3c/unpacked/META-INF/container.xml'' \<mapsto> example_container,
         ''data/books/e6f8091a2b3c/unpacked/OEBPS/content.opf'' \<mapsto> example_package,
         ''data/books/e6f8091a2b3c/unpacked/OEBPS/nav.xhtml'' \<mapsto> example_nav,
         ''data/books/e6f8091a2b3c/unpacked/OEBPS/chap1.xhtml'' \<mapsto> ''<html/>'')"

definition example_info :: BookInfo where
  "example_info =
     \<lparr>BookInfo.ID = ''e6f8091a2b3c'', Title = ''A Tale'', Author = ''Jane Doe'',
      RootFile = ''OEBPS/content.opf'', RootFS = ''data/books/e6f8091a2b3c/unpacked'',
      OPF = example_opf,
      TOC = \<lparr>Items = [\<lparr>NavItem.Href = ''chap1.xhtml'', Text = ''Chapter 1''\<rparr>]\<rparr>\<rparr>"

definition example_store :: Store where
  "example_store = \<lparr>rootDir = ''data/books'', books = [''e6f8091a2b3c'' \<mapsto> example_info]\<rparr>"

definition example_disk :: disk where
  "example_disk = example_unpacked Map.empty"

definition second_unpacked :: "disk \<Rightarrow> disk" where
  "second_unpacked dsk =
     dsk(''data/books/e81b4e81b4e8/book.epub'' \<mapsto> ''PK-second'',
         ''data/books/e81b4e81b4e8/unpacked/META-INF/container.xml'' \<mapsto> example_container,
         ''data/books/e81b4e81b4e8/unpacked/OEBPS/content.opf'' \<mapsto> second_package,
         ''data/books/e81b4e81b4e8/unpacked/OEBPS/chap1.xhtml'' \<mapsto> ''<html/>'')"

definition second_info :: BookInfo where
  "second_info =
     \<lparr>BookInfo.ID = ''e81b4e81b4e8'', Title = [], Author = ''Jane Doe'',
      RootFile = ''OEBPS/content.opf'', RootFS = ''data/books/e81b4e81b4e8/unpacked'',
      OPF = second_opf, TOC = \<lparr>Items = []\<rparr>\<rparr>"

definition second_store :: Store where
  "second_store =
     \<lparr>rootDir = ''data/books'',
      books = [''e6f8091a2b3c'' \<mapsto> example_info, ''e81b4e81b4e8'' \<mapsto> second_info]\<rparr>"

text \<open>Text whose bytes are all below \<open>0x80\<close>: every byte is a rune of its own.\<close>

definition ascii :: "string \<Rightarrow> bool" where
  "ascii s = list_all (\<lambda>c. byte c < 0x80) s"

definition plain :: "string \<Rightarrow> bool" where
  "plain e = (e \<noteq> [] \<and> e \<noteq> ''.'' \<and> e \<noteq> ''..'' \<and> CHR ''/'' \<notin> set e)"

definition cleaned :: "bool \<Rightarrow> string list \<Rightarrow> bool" where
  "cleaned rooted out =
     (list_all plain (dropWhile (\<lambda>e. e = ''..'') out) \<and> (rooted \<longrightarrow> list_all plain out))"

text \<open>The elements of a path: the pieces between its slashes, after the leading slash
  of a rooted path.\<close>

definition elements :: "string \<Rightarrow> string list" where
  "elements p = (if p \<noteq> [] \<and> hd p = CHR ''/'' then Split (tl p) (CHR ''/'') else Split p (CHR ''/''))"

definition cleanOutput :: "string \<Rightarrow> string list" where
  "cleanOutput p = cleanElems (hd p = CHR ''/'') (Split p (CHR ''/'')) []"

definition spineEntry :: "BookInfo \<Rightarrow> (string \<rightharpoonup> OPFItem) \<Rightarrow> OPFItemref \<Rightarrow> SpineItem" where
  "spineEntry b m sp =
     (let it = (case m (OPFItemref.IDRef sp) of None \<Rightarrow> zeroItem | Some it \<Rightarrow> it)
      in \<lparr>SpineItem.IDRef = OPFItemref.IDRef sp,
          Href = normJoin (Dir (RootFile b)) (OPFItem.Href it),
          Type = MediaType it,
          Title = []\<rparr>)"








section \<open>Facts about the library functions\<close>
lemma DecodeRuneInString_ascii: "byte c < 0x80 \<Longrightarrow> DecodeRuneInString (c # s) = (byte c, 1)"
  by simp

lemma DecodeLastRuneInString_ascii:
  "byte c < 0x80 \<Longrightarrow> DecodeLastRuneInString (s @ [c]) = (byte c, 1)"
  by (simp add: DecodeLastRuneInString_def)


lemma TrimLeftSpace_ascii: "ascii s \<Longrightarrow> TrimLeftSpace s = dropWhile (\<lambda>c. IsSpace (byte c)) s"
proof (induction s)
  case Nil
  show ?case by (simp add: TrimLeftSpace.simps)
next
  case (Cons c s)
  then have c: "byte c < 0x80" and s: "ascii s" by (simp_all add: ascii_def)
  show ?case
    using Cons.IH [OF s] c
    by (subst TrimLeftSpace.simps) simp
qed

lemma TrimRightSpace_ascii: "ascii s \<Longrightarrow> TrimRightSpace s = rev (dropWhile (\<lambda>c. IsSpace (byte c)) (rev s))"
proof (induction s rule: rev_induct)
  case Nil
  show ?case by (simp add: TrimRightSpace.simps)
next
  case (snoc c s)
  then have c: "byte c < 0x80" and s: "ascii s" by (simp_all add: ascii_def)
  show ?case
    using snoc.IH [OF s] DecodeLastRuneInString_ascii [OF c, of s]
    by (subst TrimRightSpace.simps) simp
qed

lemma ascii_dropWhile: "ascii s \<Longrightarrow> ascii (dropWhile P s)"
  by (induction s) (auto simp: ascii_def)

lemma TrimSpace_ascii:
  "ascii s \<Longrightarrow> TrimSpace s = rev (dropWhile (\<lambda>c. IsSpace (byte c)) (rev (dropWhile (\<lambda>c. IsSpace (byte c)) s)))"
  by (simp add: TrimSpace_def TrimLeftSpace_ascii TrimRightSpace_ascii ascii_dropWhile)

lemma runes_ascii: "ascii s \<Longrightarrow> runes s = map byte s"
proof (induction s)
  case Nil
  show ?case by (simp add: runes.simps)
next
  case (Cons c s)
  then have c: "byte c < 0x80" and s: "ascii s" by (simp_all add: ascii_def)
  show ?case
    using Cons.IH [OF s] c by (subst runes.simps) simp
qed

lemma string_of_runes_ascii:
  "list_all (\<lambda>r. r < 0x80) rs \<Longrightarrow> string_of_runes rs = map char_of rs"
  by (induction rs) (auto simp: string_of_runes_def EncodeRune_def)

lemma stripLoop_subset: "set (stripLoop rs b out) \<subseteq> set rs \<union> set out"
  by (induction rs b out rule: stripLoop.induct) (auto split: if_splits)

lemma ReplaceAll_absent:
  "old \<noteq> [] \<Longrightarrow> hd old \<notin> set s \<Longrightarrow> ReplaceAll s old new = s"
proof (induction s)
  case Nil
  show ?case by (simp add: ReplaceAll.simps)
next
  case (Cons c s)
  then have np: "\<not> prefix old (c # s)"
    by (cases old) (auto simp: prefix_Cons)
  from Cons have "ReplaceAll s old new = s" by simp
  with np Cons.prems show ?case by (subst ReplaceAll.simps) simp
qed

lemma char_of_byte: "char_of (byte c) = c"
  by (simp add: byte_def)

lemma stripTags_ascii:
  assumes "ascii s"
  shows "stripTags s = rev (dropWhile (\<lambda>c. IsSpace (byte c)) (rev (dropWhile (\<lambda>c. IsSpace (byte c))
           (map char_of (stripLoop (map byte s) False [])))))"
proof -
  let ?rs = "stripLoop (map byte s) False []"
  have small: "list_all (\<lambda>r. r < 0x80) ?rs"
    using stripLoop_subset [of "map byte s" False "[]"] assms
    by (auto simp: list_all_iff ascii_def)
  then have str: "string_of_runes ?rs = map char_of ?rs"
    by (rule string_of_runes_ascii)
  have asc: "ascii (map char_of ?rs)"
    using small by (auto simp: ascii_def list_all_iff byte_def)
  have "byte (CHR 0xC2) = 194" by (simp add: byte_def)
  then have "CHR 0xC2 \<notin> set (map char_of ?rs)"
    using asc unfolding ascii_def list_all_iff by fastforce
  then have "ReplaceAll (map char_of ?rs) nbsp '' '' = map char_of ?rs"
    by (intro ReplaceAll_absent) (simp_all add: nbsp_def)
  with str asc show ?thesis
    by (simp add: stripTags_def TrimSpace_ascii runes_ascii [OF assms])
qed

lemma Split_Nil: "Split [] sep = [[]]"
  by (simp add: Split.simps)

lemma Split_not_Nil: "Split s sep \<noteq> []"
  by (subst Split.simps) simp

lemma Split_Cons:
  "Split (c # s) sep =
     (if c = sep then [] # Split s sep else (c # hd (Split s sep)) # tl (Split s sep))"
proof (cases "c = sep")
  case True
  then show ?thesis by (subst Split.simps) simp
next
  case False
  show ?thesis
  proof (cases "Index s [sep] < 0")
    case True
    with False show ?thesis
      by (subst Split.simps, subst (2) Split.simps, subst (3) Split.simps) (simp add: Let_def)
  next
    case nn: False
    then have "nat (Index s [sep] + 1) = Suc (nat (Index s [sep]))" by simp
    with False nn show ?thesis
      by (subst Split.simps, subst (2) Split.simps, subst (3) Split.simps) (simp add: Let_def)
  qed
qed

lemma dropWhile_dots: "list_all plain ns \<Longrightarrow> dropWhile (\<lambda>e. e = ''..'') (replicate k ''..'' @ ns) = ns"
  by (induction k) (cases ns; auto simp: plain_def)+

lemma cleaned_iff:
  "cleaned rooted out \<longleftrightarrow>
     (\<exists>k ns. out = replicate k ''..'' @ ns \<and> list_all plain ns \<and> (rooted \<longrightarrow> k = 0))"
proof
  assume c: "cleaned rooted out"
  let ?k = "length (takeWhile (\<lambda>e. e = ''..'') out)"
  have tw: "takeWhile (\<lambda>e. e = ''..'') out = replicate ?k ''..''"
    by (induction out) auto
  then have "out = replicate ?k ''..'' @ dropWhile (\<lambda>e. e = ''..'') out"
    by (metis takeWhile_dropWhile_id)
  moreover from c have "list_all plain (dropWhile (\<lambda>e. e = ''..'') out)"
    by (simp add: cleaned_def)
  moreover have "rooted \<longrightarrow> ?k = 0"
  proof
    assume rooted
    with c have "list_all plain out" by (simp add: cleaned_def)
    then show "?k = 0" by (cases out) (auto simp: plain_def)
  qed
  ultimately show "\<exists>k ns. out = replicate k ''..'' @ ns \<and> list_all plain ns \<and> (rooted \<longrightarrow> k = 0)"
    by blast
next
  assume "\<exists>k ns. out = replicate k ''..'' @ ns \<and> list_all plain ns \<and> (rooted \<longrightarrow> k = 0)"
  then obtain k ns where out: "out = replicate k ''..'' @ ns" and ns: "list_all plain ns"
    and r: "rooted \<longrightarrow> k = 0" by blast
  show "cleaned rooted out"
    using ns r by (auto simp: cleaned_def out dropWhile_dots)
qed

lemma cleaned_step:
  assumes "cleaned rooted out" and "CHR ''/'' \<notin> set e"
  shows "cleaned rooted
     (if e = [] \<or> e = ''.'' then out
      else if e = ''..'' then
        (if out \<noteq> [] \<and> last out \<noteq> ''..'' then butlast out
         else if \<not> rooted then out @ [''..'']
         else out)
      else out @ [e])"
proof -
  from assms(1) obtain k ns where out: "out = replicate k ''..'' @ ns" and ns: "list_all plain ns"
    and r: "rooted \<longrightarrow> k = 0" by (auto simp: cleaned_iff)
  have last_ns: "ns \<noteq> [] \<Longrightarrow> last ns \<noteq> ''..''"
    using ns by (cases ns rule: rev_cases) (auto simp: plain_def)
  consider (skip) "e = [] \<or> e = ''.''"
    | (pop) "e = ''..''" "out \<noteq> []" "last out \<noteq> ''..''"
    | (keep) "e = ''..''" "out = [] \<or> last out = ''..''" "\<not> rooted"
    | (drop) "e = ''..''" "out = [] \<or> last out = ''..''" "rooted"
    | (push) "e \<noteq> []" "e \<noteq> ''.''" "e \<noteq> ''..''"
    by blast
  then show ?thesis
  proof cases
    case skip
    with assms(1) show ?thesis by auto
  next
    case pop
    have "ns = [] \<Longrightarrow> last out = ''..''"
      using pop(2) out by (cases k) simp_all
    with pop(3) have "ns \<noteq> []" by blast
    then have "butlast out = replicate k ''..'' @ butlast ns"
      by (simp add: out butlast_append)
    moreover have "list_all plain (butlast ns)"
      using ns by (auto simp: list_all_iff dest: in_set_butlastD)
    ultimately have "cleaned rooted (butlast out)"
      using r unfolding cleaned_iff by blast
    with pop show ?thesis by simp
  next
    case keep
    have "ns = []"
    proof (rule ccontr)
      assume "ns \<noteq> []"
      with last_ns keep(2) out show False by simp
    qed
    then have "out @ [''..''] = replicate (Suc k) ''..'' @ []"
      by (simp add: out replicate_append_same)
    moreover have "list_all plain []" by simp
    ultimately have "cleaned rooted (out @ [''..''])"
      using keep(3) unfolding cleaned_iff by blast
    with keep show ?thesis by auto
  next
    case drop
    with assms(1) show ?thesis by auto
  next
    case push
    with assms(2) have "plain e" by (simp add: plain_def)
    with ns have "list_all plain (ns @ [e])" by simp
    moreover have "out @ [e] = replicate k ''..'' @ (ns @ [e])" by (simp add: out)
    ultimately have "cleaned rooted (out @ [e])"
      using r unfolding cleaned_iff by blast
    with push show ?thesis by simp
  qed
qed

lemma cleanElems_cleaned:
  "cleaned rooted out \<Longrightarrow> \<forall>e \<in> set es. CHR ''/'' \<notin> set e \<Longrightarrow>
   cleaned rooted (cleanElems rooted es out)"
proof (induction es arbitrary: out)
  case Nil
  then show ?case by simp
next
  case (Cons e es)
  from Cons.prems have e: "CHR ''/'' \<notin> set e" and es: "\<forall>e \<in> set es. CHR ''/'' \<notin> set e"
    by simp_all
  from cleaned_step [OF Cons.prems(1) e] Cons.IH [OF _ es]
  show ?case by (auto split: if_splits)
qed

lemma Split_no_sep: "\<forall>e \<in> set (Split s sep). sep \<notin> set e"
proof (induction s)
  case Nil
  show ?case by (simp add: Split_Nil)
next
  case (Cons c s)
  with Split_not_Nil [of s sep] show ?case
    by (cases "Split s sep") (auto simp: Split_Cons)
qed




lemma strings_Join_Nil_iff: "strings_Join out sep = [] \<longleftrightarrow> out = [] \<or> (out = [[]])"
  if "sep \<noteq> []"
  using that by (induction out sep rule: strings_Join.induct) auto

lemma cleanOutput_cleaned: "cleaned (hd p = CHR ''/'') (cleanOutput p)"
  unfolding cleanOutput_def
  by (rule cleanElems_cleaned) (simp_all add: cleaned_def Split_no_sep)

lemma cleaned_parts:
  assumes "cleaned rooted out"
  shows "\<forall>e \<in> set out. e \<noteq> [] \<and> e \<noteq> ''.'' \<and> CHR ''/'' \<notin> set e"
proof
  fix e
  assume e: "e \<in> set out"
  from assms obtain k ns where out: "out = replicate k ''..'' @ ns" and ns: "list_all plain ns"
    unfolding cleaned_iff by blast
  from e out have "e \<in> set (replicate k ''..'') \<or> e \<in> set ns" by simp
  then consider "e = ''..''" | "e \<in> set ns" by auto
  then show "e \<noteq> [] \<and> e \<noteq> ''.'' \<and> CHR ''/'' \<notin> set e"
  proof cases
    case 1
    then show ?thesis by simp
  next
    case 2
    with ns have "plain e" by (simp add: list_all_iff)
    then show ?thesis by (simp add: plain_def)
  qed
qed

lemma Clean_eq:
  "Clean p =
     (if p = [] then ''.''
      else if hd p = CHR ''/'' then CHR ''/'' # strings_Join (cleanOutput p) ''/''
      else if cleanOutput p = [] then ''.''
      else strings_Join (cleanOutput p) ''/'')"
  by (simp add: Clean_def Let_def cleanOutput_def)

lemma strings_Join_cleanOutput_not_Nil:
  "cleanOutput p \<noteq> [] \<Longrightarrow> strings_Join (cleanOutput p) ''/'' \<noteq> []"
  using cleaned_parts [OF cleanOutput_cleaned, of p] by (auto simp: strings_Join_Nil_iff)

lemma Clean_not_Nil: "Clean p \<noteq> []"
  using strings_Join_cleanOutput_not_Nil [of p] by (simp add: Clean_eq)

lemma Dir_not_Nil: "Dir p \<noteq> []"
  by (simp add: Dir_def Clean_not_Nil)


lemma nth_of_take_eq:
  assumes "i < length u" and t: "take m u = take m u'" and i: "i < m"
  shows "u ! i = (u' ! i :: char)"
proof -
  from assms(1) i have "take m u ! i = u ! i" by simp
  moreover from t assms(1) i have "i < length u'"
    by (metis length_take min_less_iff_conj)
  with i have "take m u' ! i = u' ! i" by simp
  ultimately show ?thesis using t by simp
qed

text \<open>A valid encoding is decoded from its own bytes: what follows them does not
  matter.\<close>

lemma DecodeRuneInString_valid_prefix:
  assumes d: "DecodeRuneInString s = (r, n)" and v: "r \<noteq> RuneError"
    and t: "take n s = take n s'"
  shows "DecodeRuneInString s' = (r, n)"
proof (cases s)
  case Nil
  with d v show ?thesis by simp
next
  case (Cons c0 u)
  from DecodeRuneInString_width [of s] d Cons have n: "1 \<le> n" "n \<le> length s" by auto
  with t Cons obtain u' where s': "s' = c0 # u'" and tu: "take (n - 1) u = take (n - 1) u'"
    by (cases s'; cases n) auto
  from n Cons have lu: "n - 1 \<le> length u" by simp
  with tu have lu': "n - 1 \<le> length u'"
    by (metis length_take min.absorb2 min.cobounded1)
  have eq: "u ! i = u' ! i" if "i < n - 1" for i
    using nth_of_take_eq [OF _ tu that] that lu by simp
  from d v show ?thesis
    unfolding Cons s'
    by (auto simp: Let_def eq split: if_splits) (use lu' in \<open>auto simp: eq\<close>)
qed

lemma IsSpace_not_RuneError: "IsSpace r \<Longrightarrow> r \<noteq> RuneError"
  by (auto simp: IsSpace_def RuneError_def)

lemma runes_Nil: "runes [] = []"
  by (simp add: runes.simps)

lemma runes_valid_append:
  assumes d: "DecodeRuneInString s = (r, n)" and v: "r \<noteq> RuneError"
  shows "runes (take n s @ t) = r # runes t"
proof -
  have ne: "s \<noteq> []" using d v by (cases s) auto
  from DecodeRuneInString_width [OF ne] d have n: "1 \<le> n" "n \<le> length s" by simp_all
  then have tk: "take n s = take n (take n s @ t)" by simp
  from DecodeRuneInString_valid_prefix [OF d v tk]
  have d': "DecodeRuneInString (take n s @ t) = (r, n)" .
  from n ne have "take n s @ t \<noteq> []" by (cases s) auto
  moreover from n have "drop n (take n s @ t) = t" by simp
  ultimately show ?thesis
    by (subst runes.simps) (simp add: d')
qed

lemma runes_spaces_append:
  "list_all IsSpace (runes a) \<Longrightarrow> runes (a @ b) = runes a @ runes b"
proof (induction a rule: runes.induct)
  case (1 a)
  show ?case
  proof (cases "a = []")
    case True
    then show ?thesis by (simp add: runes_Nil)
  next
    case False
    obtain r n where d: "DecodeRuneInString a = (r, n)" by (cases "DecodeRuneInString a")
    from False d have ra: "runes a = r # runes (drop n a)"
      by (subst runes.simps) simp
    with "1.prems" have sp: "IsSpace r" and rest: "list_all IsSpace (runes (drop n a))"
      by simp_all
    from "1.IH" [OF False] d rest
    have IH: "runes (drop n a @ b) = runes (drop n a) @ runes b" by simp
    have "take n a @ (drop n a @ b) = a @ b" by simp
    with runes_valid_append [OF d IsSpace_not_RuneError [OF sp], of "drop n a @ b"]
    have "runes (a @ b) = r # runes (drop n a @ b)" by (simp only:)
    with IH ra show ?thesis by simp
  qed
qed

lemma TrimLeftSpace_spec:
  "\<exists>l. s = l @ TrimLeftSpace s \<and> list_all IsSpace (runes l)
     \<and> (TrimLeftSpace s = [] \<or> \<not> IsSpace (fst (DecodeRuneInString (TrimLeftSpace s))))"
proof (induction s rule: TrimLeftSpace.induct)
  case (1 s)
  show ?case
  proof (cases "s \<noteq> [] \<and> IsSpace (fst (DecodeRuneInString s))")
    case False
    then have "TrimLeftSpace s = s"
      by (subst TrimLeftSpace.simps) auto
    with False show ?thesis
      by (intro exI [of _ "[]"]) (auto simp: runes_Nil)
  next
    case True
    obtain r n where d: "DecodeRuneInString s = (r, n)" by (cases "DecodeRuneInString s")
    with True have sp: "IsSpace r" and ne: "s \<noteq> []" by simp_all
    from True d have t: "TrimLeftSpace s = TrimLeftSpace (drop n s)"
      by (subst TrimLeftSpace.simps) simp
    from "1.IH" True d obtain l where l: "drop n s = l @ TrimLeftSpace (drop n s)"
      and ls: "list_all IsSpace (runes l)"
      and e: "TrimLeftSpace (drop n s) = [] \<or>
        \<not> IsSpace (fst (DecodeRuneInString (TrimLeftSpace (drop n s))))"
      by auto
    have "s = take n s @ drop n s" by simp
    with l have s: "s = (take n s @ l) @ TrimLeftSpace s" unfolding t by simp
    have "runes (take n s @ l) = r # runes l"
      by (rule runes_valid_append [OF d IsSpace_not_RuneError [OF sp]])
    with sp ls have "list_all IsSpace (runes (take n s @ l))" by simp
    with s e show ?thesis unfolding t by blast
  qed
qed

lemma DecodeLastRuneInString_valid:
  assumes d: "DecodeLastRuneInString s = (r, n)" and v: "r \<noteq> RuneError"
  shows "n \<le> length s \<and> DecodeRuneInString (drop (length s - n) s) = (r, n)"
proof -
  have ne: "s \<noteq> []" using d v by (auto simp: DecodeLastRuneInString_def)
  then have len: "0 < length s" by simp
  define lim where "lim = (if int (length s) - 4 < 0 then 0 else int (length s) - 4)"
  define start0 where "start0 = scanStart s (int (length s) - 2) lim"
  define start where "start = (if start0 < 0 then 0 else start0)"
  define dd where "dd = DecodeRuneInString (drop (nat start) s)"
  have eq: "DecodeLastRuneInString s =
      (if byte (s ! nat (int (length s) - 1)) < 0x80
       then (byte (s ! nat (int (length s) - 1)), 1)
       else if start + int (snd dd) \<noteq> int (length s) then (RuneError, 1) else dd)"
    using len
    by (simp add: DecodeLastRuneInString_def Let_def lim_def start0_def start_def dd_def
        del: DecodeRuneInString.simps)
  have nonneg: "0 \<le> start" by (simp add: start_def)
  show ?thesis
  proof (cases "byte (s ! nat (int (length s) - 1)) < 0x80")
    case True
    have idx: "nat (int (length s) - 1) = length s - 1" by simp
    from True have small: "byte (s ! (length s - 1)) < 0x80" unfolding idx .
    from True eq d have r: "r = byte (s ! (length s - 1))" and n: "n = 1"
      unfolding idx by simp_all
    from len have "drop (length s - 1) s = [s ! (length s - 1)]"
      by (metis Suc_diff_1 drop_all le_refl lessI Cons_nth_drop_Suc)
    then have "DecodeRuneInString (drop (length s - 1) s) = (byte (s ! (length s - 1)), 1)"
      using DecodeRuneInString_ascii [OF small, of "[]"] by simp
    moreover from ne have "1 \<le> length s" by (cases s) simp_all
    ultimately show ?thesis unfolding r n by simp
  next
    case False
    with eq d v have ok: "start + int (snd dd) = int (length s)" and dd: "dd = (r, n)"
      by (auto split: if_splits)
    from ok dd nonneg have "n \<le> length s" "length s - n = nat start" by auto
    with dd show ?thesis by (simp add: dd_def)
  qed
qed

lemma TrimRightSpace_spec:
  "\<exists>r. s = TrimRightSpace s @ r \<and> list_all IsSpace (runes r)
     \<and> (TrimRightSpace s = [] \<or> \<not> IsSpace (fst (DecodeLastRuneInString (TrimRightSpace s))))"
proof (induction s rule: TrimRightSpace.induct)
  case (1 s)
  show ?case
  proof (cases "s \<noteq> [] \<and> IsSpace (fst (DecodeLastRuneInString s))")
    case False
    then have "TrimRightSpace s = s"
      by (subst TrimRightSpace.simps) auto
    with False show ?thesis
      by (intro exI [of _ "[]"]) (auto simp: runes_Nil)
  next
    case True
    obtain \<rho> n where d: "DecodeLastRuneInString s = (\<rho>, n)"
      by (cases "DecodeLastRuneInString s")
    with True have sp: "IsSpace \<rho>" and ne: "s \<noteq> []" by simp_all
    let ?pre = "take (length s - n) s"
    let ?seg = "drop (length s - n) s"
    from True d have t: "TrimRightSpace s = TrimRightSpace ?pre"
      by (subst TrimRightSpace.simps) simp
    from DecodeLastRuneInString_valid [OF d IsSpace_not_RuneError [OF sp]]
    have n: "n \<le> length s" and seg: "DecodeRuneInString ?seg = (\<rho>, n)" by simp_all
    from n have "take n ?seg = ?seg" by simp
    with runes_valid_append [OF seg IsSpace_not_RuneError [OF sp], of "[]"]
    have rseg: "runes ?seg = [\<rho>]" by (simp add: runes_Nil)
    from "1.IH" True d obtain r where r: "?pre = TrimRightSpace ?pre @ r"
      and rs: "list_all IsSpace (runes r)"
      and e: "TrimRightSpace ?pre = [] \<or>
        \<not> IsSpace (fst (DecodeLastRuneInString (TrimRightSpace ?pre)))"
      by auto
    have "s = ?pre @ ?seg" by simp
    with r have s: "s = TrimRightSpace s @ (r @ ?seg)" unfolding t by (metis append.assoc)
    from runes_spaces_append [OF rs, of ?seg] rseg rs sp
    have "list_all IsSpace (runes (r @ ?seg))" by simp
    with s e show ?thesis unfolding t by blast
  qed
qed

lemma TrimSpace_spec:
  "\<exists>l r. s = l @ TrimSpace s @ r \<and> list_all IsSpace (runes l) \<and> list_all IsSpace (runes r)
     \<and> (TrimSpace s = [] \<or>
          (\<not> IsSpace (fst (DecodeRuneInString (TrimSpace s)))
           \<and> \<not> IsSpace (fst (DecodeLastRuneInString (TrimSpace s)))))"
proof -
  let ?t1 = "TrimLeftSpace s"
  let ?t = "TrimSpace s"
  from TrimLeftSpace_spec [of s] obtain l where l: "s = l @ ?t1"
    and ls: "list_all IsSpace (runes l)"
    and first: "?t1 = [] \<or> \<not> IsSpace (fst (DecodeRuneInString ?t1))" by blast
  from TrimRightSpace_spec [of ?t1] obtain r where r: "?t1 = ?t @ r"
    and rs: "list_all IsSpace (runes r)"
    and lst: "?t = [] \<or> \<not> IsSpace (fst (DecodeLastRuneInString ?t))"
    unfolding TrimSpace_def by blast
  have "\<not> IsSpace (fst (DecodeRuneInString ?t))" if ne: "?t \<noteq> []"
  proof
    assume sp: "IsSpace (fst (DecodeRuneInString ?t))"
    obtain \<rho> n where d: "DecodeRuneInString ?t = (\<rho>, n)" by (cases "DecodeRuneInString ?t")
    from DecodeRuneInString_width [OF ne] d have "n \<le> length ?t" by simp
    then have "take n ?t = take n (?t @ r)" by simp
    from DecodeRuneInString_valid_prefix [OF d _ this] sp d IsSpace_not_RuneError
    have "DecodeRuneInString (?t @ r) = (\<rho>, n)" by auto
    with r sp d have "IsSpace (fst (DecodeRuneInString ?t1))" by simp
    moreover from r ne have "?t1 \<noteq> []" by auto
    ultimately show False using first by blast
  qed
  with lst have "?t = [] \<or>
      (\<not> IsSpace (fst (DecodeRuneInString ?t)) \<and> \<not> IsSpace (fst (DecodeLastRuneInString ?t)))"
    by blast
  moreover from l r have "s = l @ ?t @ r" by simp
  ultimately show ?thesis using ls rs by blast
qed

lemma TrimSpace_Nil: "TrimSpace [] = []"
  by (simp add: TrimSpace_def TrimLeftSpace.simps TrimRightSpace.simps)

section \<open>Facts about ingestion\<close>

lemma length_EncodeToString: "length (EncodeToString src) = 2 * length src"
  by (induction src) (simp_all add: EncodeToString_def)

lemma length_Sum: "length (Sum d) = 20"
  by (simp add: Sum_def)

lemma byte_less_256: "byte c < 256"
  by (simp add: byte_def)

lemma set_EncodeToString: "set (EncodeToString src) \<subseteq> set hextable"
proof -
  have "byte c div 16 < length hextable" "byte c mod 16 < length hextable" for c
    using byte_less_256 [of c] by (simp_all add: hextable_def)
  then show ?thesis
    by (auto simp: EncodeToString_def intro: nth_mem)
qed

lemma bookID_format:
  "length (bookID env header now) = 12 \<and> set (bookID env header now) \<subseteq> set hextable"
proof
  show "length (bookID env header now) = 12"
    by (simp add: bookID_def length_EncodeToString length_Sum)
  show "set (bookID env header now) \<subseteq> set hextable"
    unfolding bookID_def using set_take_subset set_EncodeToString by fastforce
qed

lemma ingest_Inr:
  assumes "ingest env now file header st = (Inr (k, info), st')"
  shows "k = bookID env header now \<and> BookInfo.ID info = k
     \<and> fst st' = (fst st)\<lparr>books := (books (fst st))(k \<mapsto> info)\<rparr>"
  using assms
  by (auto simp: ingest_def Let_def split: option.splits sum.splits prod.splits if_splits)

lemma ingest_Inl:
  assumes "ingest env now file header st = (Inl e, st')"
  shows "fst st' = fst st"
  using assms
  by (auto simp: ingest_def Let_def split: option.splits sum.splits prod.splits if_splits)

section \<open>The example, evaluated\<close>

lemma example_env_sel:
  "MkdirAll example_env p = None"
  "OpenFile example_env p = None"
  "ioCopy example_env p data = (length data, None)"
  "unreadable example_env p = None"
  "sortSlice example_env = insertionSort"
  by (simp_all add: example_env_def)

lemma example_env_zip:
  "zipNewReader example_env ''PK-example'' = Inr example_files"
  "zipNewReader example_env ''PK-second'' = Inr second_files"
  "zipNewReader example_env ''garbage'' = Inl FormatError"
  by (simp_all add: example_env_def)

lemma example_env_xml:
  "UnmarshalContainer example_env example_container =
     Inr \<lparr>Rootfiles = [\<lparr>FullPath = ''OEBPS/content.opf''\<rparr>]\<rparr>"
  "UnmarshalPackage example_env example_package = Inr example_opf"
  "UnmarshalPackage example_env second_package = Inr second_opf"
  by (simp_all add: example_env_def example_container_def example_package_def second_package_def
      dq_def)

lemma Split_Cons_case:
  "Split (c # s) sep =
     (if c = sep then [] # Split s sep
      else (case Split s sep of x # xs \<Rightarrow> (c # x) # xs | [] \<Rightarrow> []))"
  using Split_not_Nil [of s sep] by (simp add: Split_Cons split: list.splits)

lemmas path_eval =
  Join_def Clean_def Split_Nil Split_Cons_case cleanElems.simps Dir_def FromSlash_def normJoin_def

lemma example_id:
  "bookID example_env example_header 1700000000000000000 = ''e6f8091a2b3c''"
  by (simp add: bookID_def example_env_def example_header_def format_d_def digits.simps Sum_def
      EncodeToString_def hextable_def byte_def upt_rec)

lemma example_paths:
  "Join [''data/books'', ''e6f8091a2b3c''] = ''data/books/e6f8091a2b3c''"
  "Join [''data/books/e6f8091a2b3c'', ''book.epub''] = ''data/books/e6f8091a2b3c/book.epub''"
  "Join [''data/books/e6f8091a2b3c'', ''unpacked''] = ''data/books/e6f8091a2b3c/unpacked''"
  "Join [''data/books/e6f8091a2b3c/unpacked'', ''META-INF'', ''container.xml'']
     = ''data/books/e6f8091a2b3c/unpacked/META-INF/container.xml''"
  "Join [''data/books/e6f8091a2b3c/unpacked'', FromSlash ''OEBPS/content.opf'']
     = ''data/books/e6f8091a2b3c/unpacked/OEBPS/content.opf''"
  "Join [''data/books/e6f8091a2b3c/unpacked'', FromSlash (normJoin (Dir ''OEBPS/content.opf'') ''nav.xhtml'')]
     = ''data/books/e6f8091a2b3c/unpacked/OEBPS/nav.xhtml''"
  by (simp_all add: path_eval)

lemma example_unzip:
  "unzipFile example_env (dsk(''data/books/e6f8091a2b3c/book.epub'' \<mapsto> ''PK-example''))
     ''data/books/e6f8091a2b3c/book.epub'' ''data/books/e6f8091a2b3c/unpacked''
   = (None, example_unpacked dsk)"
  by (simp add: unzipFile_def OpenReader_def ReadFile_def example_env_sel example_env_zip
      example_files_def path_eval example_unpacked_def)

lemma example_rootfile:
  "findRootfile example_env (example_unpacked dsk) ''data/books/e6f8091a2b3c/unpacked''
     = Inr ''OEBPS/content.opf''"
  by (simp add: findRootfile_def ReadFile_def example_env_sel example_env_xml example_paths
      example_unpacked_def)

lemma example_parse:
  "parseOPF example_env (example_unpacked dsk)
     ''data/books/e6f8091a2b3c/unpacked/OEBPS/content.opf'' = Inr example_opf"
  by (simp add: parseOPF_def ReadFile_def example_env_sel example_env_xml example_unpacked_def)

lemma example_findNav: "findNavItem example_env example_opf = ''nav.xhtml''"
  by (simp add: findNavItem_def example_env_sel example_opf_def Contains_def insertionSort_def)

lemma example_lines:
  "Split example_nav (CHR 0x0A) =
     [''<nav><ol>'',
      ''  <li><a href='' @ [CHR 0x22] @ ''chap1.xhtml'' @ [CHR 0x22] @ ''>Chapter 1</a></li>'' @ [CHR 0x0D],
      ''</ol></nav>'']"
  by (simp add: example_nav_def Split_Nil Split_Cons_case)

lemma example_line1: "TrimSpace ''<nav><ol>'' = ''<nav><ol>''"
  by (simp add: TrimSpace_ascii ascii_def byte_def IsSpace_def)

lemma example_line2:
  "TrimSpace (''  <li><a href='' @ [CHR 0x22] @ ''chap1.xhtml'' @ [CHR 0x22] @ ''>Chapter 1</a></li>'' @ [CHR 0x0D])
     = ''<li><a href='' @ [CHR 0x22] @ ''chap1.xhtml'' @ [CHR 0x22] @ ''>Chapter 1</a></li>''"
  by (simp add: TrimSpace_ascii ascii_def byte_def IsSpace_def)

lemma example_line3: "TrimSpace ''</ol></nav>'' = ''</ol></nav>''"
  by (simp add: TrimSpace_ascii ascii_def byte_def IsSpace_def)

lemma example_href:
  "between (''<li><a href='' @ [CHR 0x22] @ ''chap1.xhtml'' @ [CHR 0x22] @ ''>Chapter 1</a></li>'')
      (''href='' @ [CHR 0x22]) [CHR 0x22] = ''chap1.xhtml''"
  by (simp add: between_def)

lemma example_text:
  "stripTags (''<li><a href='' @ [CHR 0x22] @ ''chap1.xhtml'' @ [CHR 0x22] @ ''>Chapter 1</a></li>'')
     = ''Chapter 1''"
  by (simp add: stripTags_ascii ascii_def byte_def IsSpace_def char_of_eq_iff)

lemma example_items:
  "navLoop (Split example_nav (CHR 0x0A)) [] = [\<lparr>NavItem.Href = ''chap1.xhtml'', Text = ''Chapter 1''\<rparr>]"
  using example_href example_text example_line1 example_line2 example_line3
  by (simp add: example_lines Contains_def)

lemma example_extract:
  "extractNav example_env (example_unpacked dsk)
     ''data/books/e6f8091a2b3c/unpacked/OEBPS/nav.xhtml''
     = Inr [\<lparr>NavItem.Href = ''chap1.xhtml'', Text = ''Chapter 1''\<rparr>]"
  by (simp add: extractNav_def ReadFile_def example_env_sel example_unpacked_def example_items)

lemma example_trim:
  "TrimSpace ''  A Tale '' = ''A Tale''"
  "TrimSpace ''Jane Doe'' = ''Jane Doe''"
  "TrimSpace [] = []"
  "TrimSpace ('' Jane Doe'' @ [CHR 0x0A]) = ''Jane Doe''"
  by (simp_all add: TrimSpace_ascii ascii_def byte_def IsSpace_def)

lemma example_opf_Meta:
  "Meta example_opf = \<lparr>OPFMetadata.Title = ''  A Tale '', Creator = ''Jane Doe''\<rparr>"
  "Meta second_opf = \<lparr>OPFMetadata.Title = [], Creator = '' Jane Doe'' @ [CHR 0x0A]\<rparr>"
  by (simp_all add: example_opf_def second_opf_def)

lemma example_ingest_any:
  "ingest example_env 1700000000000000000 ''PK-example'' example_header
       (\<lparr>rootDir = ''data/books'', books = bs\<rparr>, dsk)
     = (Inr (''e6f8091a2b3c'', example_info),
        (\<lparr>rootDir = ''data/books'', books = bs(''e6f8091a2b3c'' \<mapsto> example_info)\<rparr>,
         example_unpacked dsk))"
  by (simp add: ingest_def Let_def example_id example_paths example_env_sel example_unzip
      example_rootfile example_parse example_findNav example_extract example_opf_Meta
      example_trim example_info_def)

lemma example_ingest:
  "ingest example_env 1700000000000000000 ''PK-example'' example_header example_start
     = (Inr (''e6f8091a2b3c'', example_info), (example_store, example_disk))"
  by (simp add: example_start_def NewStore_def example_ingest_any example_store_def
      example_disk_def)

lemma example_ingest_again:
  "ingest example_env 1700000000000000000 ''PK-example'' example_header
       (example_store, example_disk)
     = (Inr (''e6f8091a2b3c'', example_info), (example_store, example_unpacked example_disk))"
  by (simp add: example_ingest_any example_store_def)

text \<open>The second archive, uploaded one nanosecond later.\<close>

lemma second_id:
  "bookID example_env example_header 1700000000000000001 = ''e81b4e81b4e8''"
  by (simp add: bookID_def example_env_def example_header_def format_d_def digits.simps Sum_def
      EncodeToString_def hextable_def byte_def upt_rec)

lemma second_paths:
  "Join [''data/books'', ''e81b4e81b4e8''] = ''data/books/e81b4e81b4e8''"
  "Join [''data/books/e81b4e81b4e8'', ''book.epub''] = ''data/books/e81b4e81b4e8/book.epub''"
  "Join [''data/books/e81b4e81b4e8'', ''unpacked''] = ''data/books/e81b4e81b4e8/unpacked''"
  "Join [''data/books/e81b4e81b4e8/unpacked'', ''META-INF'', ''container.xml'']
     = ''data/books/e81b4e81b4e8/unpacked/META-INF/container.xml''"
  "Join [''data/books/e81b4e81b4e8/unpacked'', FromSlash ''OEBPS/content.opf'']
     = ''data/books/e81b4e81b4e8/unpacked/OEBPS/content.opf''"
  by (simp_all add: path_eval)

lemma second_unzip:
  "unzipFile example_env (dsk(''data/books/e81b4e81b4e8/book.epub'' \<mapsto> ''PK-second''))
     ''data/books/e81b4e81b4e8/book.epub'' ''data/books/e81b4e81b4e8/unpacked''
   = (None, second_unpacked dsk)"
  by (simp add: unzipFile_def OpenReader_def ReadFile_def example_env_sel example_env_zip
      second_files_def path_eval second_unpacked_def)

lemma second_rootfile:
  "findRootfile example_env (second_unpacked dsk) ''data/books/e81b4e81b4e8/unpacked''
     = Inr ''OEBPS/content.opf''"
  by (simp add: findRootfile_def ReadFile_def example_env_sel example_env_xml second_paths
      second_unpacked_def)

lemma second_parse:
  "parseOPF example_env (second_unpacked dsk)
     ''data/books/e81b4e81b4e8/unpacked/OEBPS/content.opf'' = Inr second_opf"
  by (simp add: parseOPF_def ReadFile_def example_env_sel example_env_xml second_unpacked_def)

lemma second_findNav: "findNavItem example_env second_opf = []"
  by (simp add: findNavItem_def second_opf_def Contains_def)

lemma second_ingest_any:
  "ingest example_env 1700000000000000001 ''PK-second'' example_header
       (\<lparr>rootDir = ''data/books'', books = bs\<rparr>, dsk)
     = (Inr (''e81b4e81b4e8'', second_info),
        (\<lparr>rootDir = ''data/books'', books = bs(''e81b4e81b4e8'' \<mapsto> second_info)\<rparr>,
         second_unpacked dsk))"
  using example_trim
  by (simp add: ingest_def Let_def second_id second_paths example_env_sel second_unzip
      second_rootfile second_parse second_findNav example_opf_Meta second_info_def)

lemma second_ingest:
  "ingest example_env 1700000000000000001 ''PK-second'' example_header
       (example_store, example_disk)
     = (Inr (''e81b4e81b4e8'', second_info), (second_store, second_unpacked example_disk))"
  by (simp add: second_ingest_any example_store_def second_store_def)

text \<open>An upload that is not an archive.\<close>

lemma garbage_ingest:
  "ingest example_env 1700000000000000000 ''garbage'' example_header (example_store, example_disk)
     = (Inl FormatError,
        (example_store, example_disk(''data/books/e6f8091a2b3c/book.epub'' \<mapsto> ''garbage'')))"
  by (simp add: ingest_def Let_def example_id example_paths example_env_sel example_env_zip
      unzipFile_def OpenReader_def ReadFile_def example_store_def)

section \<open>The claims\<close>

text \<open>
  C10.  Every book identifier that \<open>ingest\<close> returns and uses as the key of the catalogue
  is exactly 12 characters long and consists of lowercase hexadecimal digits only, for
  every file name, size and reading of the clock: it is the first 12 digits of the
  hexadecimal encoding of a SHA-1 digest.
\<close>

theorem C10_identifier_is_12_hex_digits:
  "length (bookID env header now) = 12
   \<and> set (bookID env header now) \<subseteq> set ''0123456789abcdef''
   \<and> (\<forall>file st k info st'.
         ingest env now file header st = (Inr (k, info), st') \<longrightarrow>
           k = bookID env header now \<and> BookInfo.ID info = k \<and> books (fst st') k = Some info)"
proof (intro conjI allI impI)
  show "length (bookID env header now) = 12"
    using bookID_format by blast
  show "set (bookID env header now) \<subseteq> set ''0123456789abcdef''"
    using bookID_format [of env header now] by (simp add: hextable_def)
next
  fix upload st k info st'
  assume "ingest env now upload header st = (Inr (k, info), st')"
  from ingest_Inr [OF this]
  show "k = bookID env header now" "BookInfo.ID info = k" "books (fst st') k = Some info"
    by simp_all
qed

theorem C10_identifier_witness:
  "ingest example_env 1700000000000000000 ''PK-example'' example_header example_start
     = (Inr (''e6f8091a2b3c'', example_info), (example_store, example_disk))
   \<and> bookID example_env example_header 1700000000000000000 = ''e6f8091a2b3c''
   \<and> length ''e6f8091a2b3c'' = 12
   \<and> set ''e6f8091a2b3c'' \<subseteq> set ''0123456789abcdef''
   \<and> books example_store ''e6f8091a2b3c'' = Some example_info"
proof -
  note c10 = C10_identifier_is_12_hex_digits [of example_env example_header 1700000000000000000]
  from c10 have fmt: "length ''e6f8091a2b3c'' = 12" "set ''e6f8091a2b3c'' \<subseteq> set ''0123456789abcdef''"
    unfolding example_id by blast+
  from c10 example_ingest
  have "books (fst (example_store, example_disk)) ''e6f8091a2b3c'' = Some example_info"
    by blast
  with fmt example_ingest example_id show ?thesis by simp
qed

text \<open>
  C8.  The container locator reads \<open>META-INF/container.xml\<close> under the extracted root,
  parses it as XML and returns the full path of the first rootfile declared.  It returns
  an error when the file is absent or unreadable, when the XML does not parse, and when
  no rootfile is declared; rootfiles after the first are ignored.
\<close>

theorem C8_findRootfile_first_rootfile_or_error:
  "(\<forall>e. ReadFile env dsk (Join [root, ''META-INF'', ''container.xml'']) = Inl e \<longrightarrow>
        findRootfile env dsk root = Inl e)
   \<and> (unreadable env (Join [root, ''META-INF'', ''container.xml'']) \<noteq> None
        \<or> dsk (Join [root, ''META-INF'', ''container.xml'']) = None \<longrightarrow>
        (\<exists>e. findRootfile env dsk root = Inl e))
   \<and> (\<forall>data. ReadFile env dsk (Join [root, ''META-INF'', ''container.xml'']) = Inr data \<longrightarrow>
        (\<forall>e. UnmarshalContainer env data = Inl e \<longrightarrow> findRootfile env dsk root = Inl e)
        \<and> (\<forall>c. UnmarshalContainer env data = Inr c \<longrightarrow>
              (Rootfiles c = [] \<longrightarrow> findRootfile env dsk root = Inl NoRootfile)
              \<and> (\<forall>r rest. Rootfiles c = r # rest \<longrightarrow>
                    findRootfile env dsk root = Inr (FullPath r))))"
  by (auto simp: findRootfile_def ReadFile_def split: option.splits)

theorem C8_findRootfile_witness:
  "findRootfile example_env Map.empty ''data/books/e6f8091a2b3c/unpacked'' = Inl NotExist
   \<and> findRootfile example_env
         [''data/books/e6f8091a2b3c/unpacked/META-INF/container.xml'' \<mapsto> ''garbage'']
         ''data/books/e6f8091a2b3c/unpacked'' = Inl SyntaxError
   \<and> findRootfile example_env
         [''data/books/e6f8091a2b3c/unpacked/META-INF/container.xml'' \<mapsto> no_rootfile_container]
         ''data/books/e6f8091a2b3c/unpacked'' = Inl NoRootfile
   \<and> findRootfile example_env
         [''data/books/e6f8091a2b3c/unpacked/META-INF/container.xml'' \<mapsto> two_rootfiles_container]
         ''data/books/e6f8091a2b3c/unpacked'' = Inr ''a.opf''"
proof -
  let ?root = "''data/books/e6f8091a2b3c/unpacked''"
  let ?p = "''data/books/e6f8091a2b3c/unpacked/META-INF/container.xml''"
  have p: "Join [?root, ''META-INF'', ''container.xml''] = ?p"
    by (rule example_paths)
  have xml:
    "UnmarshalContainer example_env ''garbage'' = Inl SyntaxError"
    "UnmarshalContainer example_env no_rootfile_container = Inr \<lparr>Rootfiles = []\<rparr>"
    "UnmarshalContainer example_env two_rootfiles_container
     = Inr \<lparr>Rootfiles = [\<lparr>FullPath = ''a.opf''\<rparr>, \<lparr>FullPath = ''b.opf''\<rparr>]\<rparr>"
    by (simp_all add: example_env_def example_container_def two_rootfiles_container_def
        no_rootfile_container_def dq_def)
  have a: "findRootfile example_env Map.empty ?root = Inl NotExist"
    using C8_findRootfile_first_rootfile_or_error [of example_env Map.empty ?root]
    by (simp add: p ReadFile_def example_env_sel)
  have b: "findRootfile example_env [?p \<mapsto> ''garbage''] ?root = Inl SyntaxError"
    using C8_findRootfile_first_rootfile_or_error [of example_env "[?p \<mapsto> ''garbage'']" ?root] xml
    by (simp add: p ReadFile_def example_env_sel)
  have c: "findRootfile example_env [?p \<mapsto> no_rootfile_container] ?root = Inl NoRootfile"
    using C8_findRootfile_first_rootfile_or_error [of example_env "[?p \<mapsto> no_rootfile_container]" ?root] xml
    by (simp add: p ReadFile_def example_env_sel)
  have d: "findRootfile example_env
         [?p \<mapsto> two_rootfiles_container]
         ?root = Inr ''a.opf''"
    using C8_findRootfile_first_rootfile_or_error [of example_env
        "[?p \<mapsto> two_rootfiles_container]" ?root] xml
    by (simp add: p ReadFile_def example_env_sel)
  from a b c d show ?thesis by blast
qed

lemma ingest_steps:
  assumes "ingest env now upload header st = (Inr (k, info), st')"
  shows "MkdirAll env (Join [rootDir (fst st), k]) = None
     \<and> OpenFile env (Join [Join [rootDir (fst st), k], ''book.epub'']) = None
     \<and> snd (ioCopy env (Join [Join [rootDir (fst st), k], ''book.epub'']) upload) = None
     \<and> RootFS info = Join [Join [rootDir (fst st), k], ''unpacked'']
     \<and> unzipFile env
           ((snd st)(Join [Join [rootDir (fst st), k], ''book.epub''] \<mapsto>
              take (fst (ioCopy env (Join [Join [rootDir (fst st), k], ''book.epub'']) upload)) upload))
           (Join [Join [rootDir (fst st), k], ''book.epub'']) (RootFS info) = (None, snd st')
     \<and> findRootfile env (snd st') (RootFS info) = Inr (RootFile info)
     \<and> parseOPF env (snd st') (Join [RootFS info, FromSlash (RootFile info)]) = Inr (OPF info)"
  using assms
  by (auto simp: ingest_def Let_def split: option.splits sum.splits prod.splits if_splits)

lemma ingest_info:
  assumes "ingest env now upload header st = (Inr (k, info), st')"
  shows "BookInfo.Title info = TrimSpace (OPFMetadata.Title (Meta (OPF info)))
     \<and> Author info = TrimSpace (Creator (Meta (OPF info)))
     \<and> TOC info =
         (if findNavItem env (OPF info) \<noteq> [] then
            \<lparr>Items =
               (case extractNav env (snd st')
                       (Join [RootFS info,
                              FromSlash (normJoin (Dir (RootFile info)) (findNavItem env (OPF info)))]) of
                  Inl e \<Rightarrow> []
                | Inr items \<Rightarrow> items)\<rparr>
          else \<lparr>Items = []\<rparr>)"
  using assms
  by (auto simp: ingest_def Let_def split: option.splits sum.splits prod.splits if_splits)

text \<open>
  C7.  When a step of ingestion fails (extracting the archive, locating the container,
  parsing the package), \<open>ingest\<close> returns an error and the catalogue is as it was: no entry
  for the book is visible to \<open>ListBooks\<close> or to a lookup.  A record enters the catalogue
  only after every step has succeeded, so no partly filled record can be observed.
\<close>

theorem C7_failed_ingest_leaves_catalogue_unchanged:
  "(\<forall>e st'. ingest env now upload header st = (Inl e, st') \<longrightarrow>
       fst st' = fst st \<and> ListBooks (fst st') = ListBooks (fst st)
       \<and> (\<forall>k. GetBookByID (fst st') k = GetBookByID (fst st) k))
   \<and> (\<forall>k info st'. ingest env now upload header st = (Inr (k, info), st') \<longrightarrow>
       unzipFile env
           ((snd st)(Join [Join [rootDir (fst st), k], ''book.epub''] \<mapsto>
              take (fst (ioCopy env (Join [Join [rootDir (fst st), k], ''book.epub'']) upload)) upload))
           (Join [Join [rootDir (fst st), k], ''book.epub'']) (RootFS info) = (None, snd st')
       \<and> findRootfile env (snd st') (RootFS info) = Inr (RootFile info)
       \<and> parseOPF env (snd st') (Join [RootFS info, FromSlash (RootFile info)]) = Inr (OPF info)
       \<and> BookInfo.ID info = k
       \<and> BookInfo.Title info = TrimSpace (OPFMetadata.Title (Meta (OPF info)))
       \<and> Author info = TrimSpace (Creator (Meta (OPF info)))
       \<and> fst st' = (fst st)\<lparr>books := (books (fst st))(k \<mapsto> info)\<rparr>)"
proof (intro conjI allI impI)
  fix e st'
  assume "ingest env now upload header st = (Inl e, st')"
  from ingest_Inl [OF this] show "fst st' = fst st" .
  then show "ListBooks (fst st') = ListBooks (fst st)"
    and "\<And>k. GetBookByID (fst st') k = GetBookByID (fst st) k"
    by simp_all
next
  fix k info st'
  assume ok: "ingest env now upload header st = (Inr (k, info), st')"
  from ingest_steps [OF ok]
  show "unzipFile env
           ((snd st)(Join [Join [rootDir (fst st), k], ''book.epub''] \<mapsto>
              take (fst (ioCopy env (Join [Join [rootDir (fst st), k], ''book.epub'']) upload)) upload))
           (Join [Join [rootDir (fst st), k], ''book.epub'']) (RootFS info) = (None, snd st')"
    and "findRootfile env (snd st') (RootFS info) = Inr (RootFile info)"
    and "parseOPF env (snd st') (Join [RootFS info, FromSlash (RootFile info)]) = Inr (OPF info)"
    by blast+
  from ingest_Inr [OF ok]
  show "BookInfo.ID info = k" and "fst st' = (fst st)\<lparr>books := (books (fst st))(k \<mapsto> info)\<rparr>"
    by simp_all
  from ingest_info [OF ok]
  show "BookInfo.Title info = TrimSpace (OPFMetadata.Title (Meta (OPF info)))"
    and "Author info = TrimSpace (Creator (Meta (OPF info)))"
    by simp_all
qed

theorem C7_failed_ingest_witness:
  "ingest example_env 1700000000000000000 ''garbage'' example_header (example_store, example_disk)
     = (Inl FormatError,
        (example_store, example_disk(''data/books/e6f8091a2b3c/book.epub'' \<mapsto> ''garbage'')))
   \<and> GetBookByID example_store ''e6f8091a2b3c'' = Some example_info
   \<and> ingest example_env 1700000000000000001 ''PK-second'' example_header
        (example_store, example_disk)
     = (Inr (''e81b4e81b4e8'', second_info), (second_store, second_unpacked example_disk))
   \<and> findRootfile example_env (second_unpacked example_disk) (RootFS second_info)
       = Inr ''OEBPS/content.opf''
   \<and> second_store = example_store\<lparr>books := (books example_store)(''e81b4e81b4e8'' \<mapsto> second_info)\<rparr>"
proof -
  note c7 = C7_failed_ingest_leaves_catalogue_unchanged
  from c7 [of example_env 1700000000000000000 "''garbage''" example_header
      "(example_store, example_disk)"] garbage_ingest
  have "\<forall>k. GetBookByID
          (fst (example_store, example_disk(''data/books/e6f8091a2b3c/book.epub'' \<mapsto> ''garbage''))) k
        = GetBookByID (fst (example_store, example_disk)) k"
    by blast
  then have a: "GetBookByID example_store ''e6f8091a2b3c'' = Some example_info"
    by (simp add: GetBookByID_def example_store_def)
  from c7 [of example_env 1700000000000000001 "''PK-second''" example_header
      "(example_store, example_disk)"] second_ingest
  have "findRootfile example_env (snd (second_store, second_unpacked example_disk))
          (RootFS second_info) = Inr (RootFile second_info)
      \<and> fst (second_store, second_unpacked example_disk)
        = (fst (example_store, example_disk))
            \<lparr>books := (books (fst (example_store, example_disk)))(''e81b4e81b4e8'' \<mapsto> second_info)\<rparr>"
    by blast
  then have b: "findRootfile example_env (second_unpacked example_disk) (RootFS second_info)
       = Inr ''OEBPS/content.opf''"
    and c: "second_store = example_store\<lparr>books := (books example_store)(''e81b4e81b4e8'' \<mapsto> second_info)\<rparr>"
    by (simp_all add: second_info_def)
  from a b c garbage_ingest second_ingest show ?thesis by simp
qed

text \<open>
  C9 (as amended).  The identifier is derived from the file name, the size and the reading
  of the clock of the upload, never from the bytes of the archive.  Of two sequential
  ingestions that succeed, each book is retrievable under its own identifier whenever the
  two identifiers differ; when they are equal, which is the case whenever name, size and
  clock reading coincide, the second record has replaced the first.
\<close>

theorem C9_identifier_from_name_size_time:
  assumes "ingest env t1 upload1 h1 st = (Inr (k1, i1), st1)"
    and "ingest env t2 upload2 h2 st1 = (Inr (k2, i2), st2)"
  shows "k1 = bookID env h1 t1 \<and> k2 = bookID env h2 t2
     \<and> (Filename h1 = Filename h2 \<and> Size h1 = Size h2 \<and> t1 = t2 \<longrightarrow> k1 = k2)
     \<and> (k1 \<noteq> k2 \<longrightarrow> GetBookByID (fst st2) k1 = Some i1 \<and> GetBookByID (fst st2) k2 = Some i2)
     \<and> (k1 = k2 \<longrightarrow> GetBookByID (fst st2) k1 = Some i2)"
proof -
  from ingest_Inr [OF assms(1)] ingest_Inr [OF assms(2)]
  have k: "k1 = bookID env h1 t1" "k2 = bookID env h2 t2"
    and s1: "fst st1 = (fst st)\<lparr>books := (books (fst st))(k1 \<mapsto> i1)\<rparr>"
    and s2: "fst st2 = (fst st1)\<lparr>books := (books (fst st1))(k2 \<mapsto> i2)\<rparr>"
    by simp_all
  have "Filename h1 = Filename h2 \<and> Size h1 = Size h2 \<and> t1 = t2 \<longrightarrow> k1 = k2"
    by (simp add: k bookID_def)
  moreover have "k1 \<noteq> k2 \<longrightarrow> GetBookByID (fst st2) k1 = Some i1 \<and> GetBookByID (fst st2) k2 = Some i2"
    by (simp add: GetBookByID_def s1 s2)
  moreover have "k1 = k2 \<longrightarrow> GetBookByID (fst st2) k1 = Some i2"
    by (simp add: GetBookByID_def s1 s2)
  ultimately show ?thesis using k by blast
qed

theorem C9_identifier_witness:
  "ingest example_env 1700000000000000000 ''PK-example'' example_header example_start
     = (Inr (''e6f8091a2b3c'', example_info), (example_store, example_disk))
   \<and> ingest example_env 1700000000000000001 ''PK-second'' example_header
        (example_store, example_disk)
     = (Inr (''e81b4e81b4e8'', second_info), (second_store, second_unpacked example_disk))
   \<and> GetBookByID second_store ''e6f8091a2b3c'' = Some example_info
   \<and> GetBookByID second_store ''e81b4e81b4e8'' = Some second_info"
proof -
  from C9_identifier_from_name_size_time [OF example_ingest second_ingest]
  have "''e6f8091a2b3c'' \<noteq> ''e81b4e81b4e8'' \<longrightarrow>
      GetBookByID (fst (second_store, second_unpacked example_disk)) ''e6f8091a2b3c''
        = Some example_info
      \<and> GetBookByID (fst (second_store, second_unpacked example_disk)) ''e81b4e81b4e8''
        = Some second_info"
    by blast
  then have "GetBookByID second_store ''e6f8091a2b3c'' = Some example_info
      \<and> GetBookByID second_store ''e81b4e81b4e8'' = Some second_info"
    by simp
  with example_ingest second_ingest show ?thesis by blast
qed

theorem C9_identical_uploads_counterexample:
  "ingest example_env 1700000000000000000 ''PK-example'' example_header example_start
     = (Inr (''e6f8091a2b3c'', example_info), (example_store, example_disk))
   \<and> ingest example_env 1700000000000000000 ''PK-example'' example_header
        (example_store, example_disk)
     = (Inr (''e6f8091a2b3c'', example_info), (example_store, example_unpacked example_disk))
   \<and> dom (books example_store) = {''e6f8091a2b3c''}"
  using example_ingest example_ingest_again by (simp add: example_store_def)

lemma Index_nonneg_iff_sublist: "0 \<le> Index s substr \<longleftrightarrow> sublist substr s"
proof (induction s)
  case Nil
  show ?case by simp
next
  case (Cons c s)
  show ?case
  proof (cases "prefix substr (c # s)")
    case True
    then show ?thesis by (auto simp: sublist_Cons_right)
  next
    case False
    with Cons show ?thesis by (auto simp: Let_def sublist_Cons_right)
  qed
qed

lemma Contains_iff_sublist: "Contains s substr \<longleftrightarrow> sublist substr s"
  by (simp add: Contains_def Index_nonneg_iff_sublist)

lemma navCandidates_filter:
  "navCandidates its candidates =
     candidates @ filter (\<lambda>h. sublist ''nav'' h \<or> sublist ''toc'' h) (map OPFItem.Href its)"
  by (induction its arbitrary: candidates) (simp_all add: Contains_iff_sublist)

lemma sorted_wrt_hd_least:
  assumes "sorted_wrt (\<lambda>a b. \<not> length b < length a) ys" and "ys \<noteq> []" and "c \<in> set ys"
  shows "length (ys ! 0) \<le> length (c :: string)"
  using assms by (cases ys) auto

text \<open>
  C4.  The selection of the navigation document returns the href of a manifest item that
  contains \<open>nav\<close> or \<open>toc\<close> (case-sensitive) and, among all such hrefs, one of the
  shortest.  When no href of the manifest contains either, nothing is selected and the
  table of contents of the ingested book is the empty list, not an error.
\<close>

theorem C4_findNavItem_shortest_candidate:
  assumes "sortSlice_sorts env"
  shows "(\<forall>c \<in> set (Manifest p).
            (sublist ''nav'' (OPFItem.Href c) \<or> sublist ''toc'' (OPFItem.Href c)) \<longrightarrow>
            (\<exists>it \<in> set (Manifest p). findNavItem env p = OPFItem.Href it)
            \<and> (sublist ''nav'' (findNavItem env p) \<or> sublist ''toc'' (findNavItem env p))
            \<and> length (findNavItem env p) \<le> length (OPFItem.Href c))
     \<and> ((\<forall>c \<in> set (Manifest p).
            \<not> sublist ''nav'' (OPFItem.Href c) \<and> \<not> sublist ''toc'' (OPFItem.Href c)) \<longrightarrow>
          findNavItem env p = []
          \<and> (\<forall>now upload header st k info st'.
                ingest env now upload header st = (Inr (k, info), st') \<and> OPF info = p \<longrightarrow>
                GetTOC (fst st') k = Some \<lparr>Items = []\<rparr>))"
proof -
  define cands where
    "cands = filter (\<lambda>h. sublist ''nav'' h \<or> sublist ''toc'' h) (map OPFItem.Href (Manifest p))"
  define sorted where "sorted = sortSlice env (\<lambda>a b. length a < length b) cands"
  have nc: "navCandidates (Manifest p) [] = cands"
    by (simp add: navCandidates_filter cands_def)
  have ms: "mset sorted = mset cands"
    and srt: "sorted_wrt (\<lambda>a b. \<not> length b < length a) sorted"
    using assms by (simp_all add: sortSlice_sorts_def sorted_def)
  from ms have set_eq: "set sorted = set cands" by (rule mset_eq_setD)
  have res: "findNavItem env p = (if cands = [] then [] else sorted ! 0)"
    by (simp add: findNavItem_def nc sorted_def Let_def)
  show ?thesis
  proof (intro conjI ballI impI)
    fix c
    assume c: "c \<in> set (Manifest p)"
      and hit: "sublist ''nav'' (OPFItem.Href c) \<or> sublist ''toc'' (OPFItem.Href c)"
    then have mem: "OPFItem.Href c \<in> set cands" by (auto simp: cands_def)
    then have ne: "cands \<noteq> []" by auto
    with set_eq have sne: "sorted \<noteq> []" by auto
    then have "sorted ! 0 \<in> set sorted" by (cases sorted) auto
    with set_eq have in_c: "sorted ! 0 \<in> set cands" by simp
    from ne res have r: "findNavItem env p = sorted ! 0" by simp
    from in_c show "\<exists>it \<in> set (Manifest p). findNavItem env p = OPFItem.Href it"
      unfolding r cands_def by auto
    from in_c show "sublist ''nav'' (findNavItem env p) \<or> sublist ''toc'' (findNavItem env p)"
      unfolding r cands_def by auto
    from mem set_eq have "OPFItem.Href c \<in> set sorted" by simp
    from sorted_wrt_hd_least [OF srt sne this]
    show "length (findNavItem env p) \<le> length (OPFItem.Href c)"
      unfolding r .
  next
    assume none: "\<forall>c \<in> set (Manifest p).
        \<not> sublist ''nav'' (OPFItem.Href c) \<and> \<not> sublist ''toc'' (OPFItem.Href c)"
    then have "cands = []" by (auto simp: cands_def filter_empty_conv)
    with res show no_nav: "findNavItem env p = []" by simp
    show "\<forall>now upload header st k info st'.
        ingest env now upload header st = (Inr (k, info), st') \<and> OPF info = p \<longrightarrow>
        GetTOC (fst st') k = Some \<lparr>Items = []\<rparr>"
    proof (intro allI impI)
      fix now upload header st k info st'
      assume "ingest env now upload header st = (Inr (k, info), st') \<and> OPF info = p"
      then have ok: "ingest env now upload header st = (Inr (k, info), st')"
        and p: "OPF info = p" by simp_all
      from ingest_info [OF ok] no_nav p have "TOC info = \<lparr>Items = []\<rparr>" by simp
      moreover from ingest_Inr [OF ok] have "books (fst st') k = Some info" by simp
      ultimately show "GetTOC (fst st') k = Some \<lparr>Items = []\<rparr>"
        by (simp add: GetTOC_def GetBookByID_def)
    qed
  qed
qed

lemma mset_insertBy: "mset (insertBy lt x ys) = add_mset x (mset ys)"
  by (induction ys) simp_all

lemma mset_insertionSort: "mset (insertionSort lt xs) = mset xs"
  by (induction xs) (simp_all add: insertionSort_def mset_insertBy)

lemma set_insertBy: "set (insertBy lt x ys) = insert x (set ys)"
  by (induction ys) auto

lemma sorted_insertBy_length:
  "sorted_wrt (\<lambda>a b. \<not> length b < length a) ys \<Longrightarrow>
   sorted_wrt (\<lambda>a b. \<not> length b < length a) (insertBy (\<lambda>a b. length a < length b) x ys)"
  by (induction ys) (auto simp: set_insertBy)

lemma sorted_insertionSort_length:
  "sorted_wrt (\<lambda>a b. \<not> length b < length a) (insertionSort (\<lambda>a b. length a < length b) xs)"
  by (induction xs) (simp_all add: insertionSort_def sorted_insertBy_length)

lemma example_sortSlice_sorts: "sortSlice_sorts example_env"
  by (simp add: sortSlice_sorts_def example_env_sel mset_insertionSort sorted_insertionSort_length)

theorem C4_findNavItem_witness:
  "sortSlice_sorts example_env
   \<and> findNavItem example_env
        (example_opf\<lparr>Manifest :=
           [\<lparr>OPFItem.ID = ''t'', Href = ''text/toc.xhtml'', MediaType = []\<rparr>,
            \<lparr>OPFItem.ID = ''c'', Href = ''chap1.xhtml'', MediaType = []\<rparr>,
            \<lparr>OPFItem.ID = ''n'', Href = ''nav.xhtml'', MediaType = []\<rparr>]\<rparr>) = ''nav.xhtml''
   \<and> length ''nav.xhtml'' \<le> length ''text/toc.xhtml''
   \<and> findNavItem example_env second_opf = []
   \<and> ingest example_env 1700000000000000001 ''PK-second'' example_header
        (example_store, example_disk)
     = (Inr (''e81b4e81b4e8'', second_info), (second_store, second_unpacked example_disk))
   \<and> GetTOC second_store ''e81b4e81b4e8'' = Some \<lparr>Items = []\<rparr>"
proof -
  let ?p = "example_opf\<lparr>Manifest :=
           [\<lparr>OPFItem.ID = ''t'', Href = ''text/toc.xhtml'', MediaType = []\<rparr>,
            \<lparr>OPFItem.ID = ''c'', Href = ''chap1.xhtml'', MediaType = []\<rparr>,
            \<lparr>OPFItem.ID = ''n'', Href = ''nav.xhtml'', MediaType = []\<rparr>]\<rparr>"
  have ev: "findNavItem example_env ?p = ''nav.xhtml''"
    by (simp add: findNavItem_def example_env_sel Contains_def insertionSort_def)
  note c4 = C4_findNavItem_shortest_candidate [OF example_sortSlice_sorts]
  have "sublist ''toc'' ''text/toc.xhtml''"
    using Contains_iff_sublist [of "''text/toc.xhtml''" "''toc''"] by (simp add: Contains_def)
  with c4 [of ?p] have "length (findNavItem example_env ?p) \<le> length ''text/toc.xhtml''"
    by simp
  then have a: "length ''nav.xhtml'' \<le> length ''text/toc.xhtml''"
    unfolding ev .
  have none: "\<forall>c \<in> set (Manifest second_opf).
      \<not> sublist ''nav'' (OPFItem.Href c) \<and> \<not> sublist ''toc'' (OPFItem.Href c)"
    using Contains_iff_sublist [of "''chap1.xhtml''" "''nav''"]
      Contains_iff_sublist [of "''chap1.xhtml''" "''toc''"]
    by (simp add: second_opf_def Contains_def)
  have opf: "OPF second_info = second_opf" by (simp add: second_info_def)
  from c4 [of second_opf] none have b: "findNavItem example_env second_opf = []"
    by blast
  from c4 [of second_opf] none second_ingest opf
  have "GetTOC (fst (second_store, second_unpacked example_disk)) ''e81b4e81b4e8''
      = Some \<lparr>Items = []\<rparr>"
    by blast
  with a b ev example_sortSlice_sorts second_ingest show ?thesis by simp
qed

lemma itemsByID_Some_cases:
  "itemsByID its m k = Some it \<Longrightarrow> (it \<in> set its \<and> OPFItem.ID it = k) \<or> m k = Some it"
proof (induction its arbitrary: m)
  case Nil
  then show ?case by simp
next
  case (Cons a its)
  from Cons.prems have "itemsByID its (m(OPFItem.ID a \<mapsto> a)) k = Some it" by simp
  from Cons.IH [OF this] show ?case by (auto split: if_splits)
qed

lemma itemsByID_None_iff:
  "itemsByID its m k = None \<longleftrightarrow> m k = None \<and> k \<notin> OPFItem.ID ` set its"
  by (induction its arbitrary: m) auto

lemma itemsByID_absent:
  "k \<notin> OPFItem.ID ` set its \<Longrightarrow> itemsByID its Map.empty k = None"
  by (simp add: itemsByID_None_iff)

lemma itemsByID_Some:
  "itemsByID its Map.empty k = Some it \<Longrightarrow> it \<in> set its \<and> OPFItem.ID it = k"
  using itemsByID_Some_cases [of its Map.empty k it] by simp

lemma spineLoop_map: "spineLoop b m sps out = out @ map (spineEntry b m) sps"
  by (induction sps arbitrary: out) (simp_all add: spineEntry_def Let_def)

lemma GetSpine_map:
  "books s k = Some b \<Longrightarrow>
   GetSpine s k = Some (map (spineEntry b (itemsByID (Manifest (OPF b)) Map.empty)) (Spine (OPF b)))"
  by (simp add: GetSpine_def GetBookByID_def spineLoop_map)

lemma unzipLoop_UnmarshalPackage:
  "unzipLoop (env\<lparr>UnmarshalPackage := u\<rparr>) dest fs dsk = unzipLoop env dest fs dsk"
  by (induction fs arbitrary: dsk) (auto simp: Let_def split: option.splits sum.splits prod.splits)

lemma UnmarshalPackage_update:
  "unzipFile (env\<lparr>UnmarshalPackage := u\<rparr>) dsk zipPath dest = unzipFile env dsk zipPath dest"
  "findRootfile (env\<lparr>UnmarshalPackage := u\<rparr>) dsk root = findRootfile env dsk root"
  "extractNav (env\<lparr>UnmarshalPackage := u\<rparr>) dsk navPath = extractNav env dsk navPath"
  "findNavItem (env\<lparr>UnmarshalPackage := u\<rparr>) p = findNavItem env p"
  "bookID (env\<lparr>UnmarshalPackage := u\<rparr>) header now = bookID env header now"
  by (simp_all add: unzipFile_def OpenReader_def ReadFile_def findRootfile_def extractNav_def
      findNavItem_def bookID_def unzipLoop_UnmarshalPackage Let_def
      split: option.splits sum.splits)

lemma parseOPF_update:
  "parseOPF (env\<lparr>UnmarshalPackage := (\<lambda>data. map_sum (\<lambda>e. e) f (UnmarshalPackage env data))\<rparr>) dsk name
     = map_sum (\<lambda>e. e) f (parseOPF env dsk name)"
  by (simp add: parseOPF_def ReadFile_def split: option.splits sum.splits)

lemma findNavItem_Spine: "findNavItem env (p\<lparr>Spine := sp\<rparr>) = findNavItem env p"
  by (simp add: findNavItem_def)

lemma ingest_decode_spine:
  "fst (ingest
         (env\<lparr>UnmarshalPackage :=
            (\<lambda>data. map_sum (\<lambda>e. e) (\<lambda>p. p\<lparr>Spine := g (Spine p)\<rparr>) (UnmarshalPackage env data))\<rparr>)
         now upload header st)
   = map_sum (\<lambda>e. e)
       (\<lambda>(k, info). (k, info\<lparr>OPF := (OPF info)\<lparr>Spine := g (Spine (OPF info))\<rparr>\<rparr>))
       (fst (ingest env now upload header st))"
  unfolding ingest_def Let_def UnmarshalPackage_update parseOPF_update
  by (auto simp: findNavItem_Spine split: option.splits sum.splits prod.splits)

text \<open>
  C2 (as amended).  For a catalogued book and a spine entry whose \<open>idref\<close> matches no
  identifier of the manifest, \<open>GetSpine\<close> returns for that entry a record whose media
  type and title are empty and whose href is the directory of the package document
  (\<open>path.Dir\<close> of the rootfile path), which is never empty.  Such an entry does not make
  ingestion fail: whatever spine the decoder delivers, ingestion returns the same error
  or succeeds with that spine.
\<close>

theorem C2_unmatched_spine_entry_resolves_to_package_directory:
  assumes "ingest env now upload header st = (Inr (k, info), st')"
  shows "(\<exists>out. GetSpine (fst st') k = Some out \<and> length out = length (Spine (OPF info))
          \<and> (\<forall>i < length (Spine (OPF info)).
                OPFItemref.IDRef (Spine (OPF info) ! i) \<notin> OPFItem.ID ` set (Manifest (OPF info)) \<longrightarrow>
                out ! i = \<lparr>SpineItem.IDRef = OPFItemref.IDRef (Spine (OPF info) ! i),
                           Href = Dir (RootFile info), Type = [], Title = []\<rparr>
                \<and> SpineItem.Href (out ! i) \<noteq> []))
     \<and> (\<forall>g. fst (ingest
                   (env\<lparr>UnmarshalPackage :=
                      (\<lambda>data. map_sum (\<lambda>e. e) (\<lambda>p. p\<lparr>Spine := g (Spine p)\<rparr>)
                                (UnmarshalPackage env data))\<rparr>)
                   now upload header st)
              = Inr (k, info\<lparr>OPF := (OPF info)\<lparr>Spine := g (Spine (OPF info))\<rparr>\<rparr>))"
proof (intro conjI allI)
  let ?sp = "Spine (OPF info)"
  let ?m = "itemsByID (Manifest (OPF info)) Map.empty"
  from ingest_Inr [OF assms] have b: "books (fst st') k = Some info" by simp
  let ?out = "map (spineEntry info ?m) ?sp"
  have "\<forall>i < length ?sp.
      OPFItemref.IDRef (?sp ! i) \<notin> OPFItem.ID ` set (Manifest (OPF info)) \<longrightarrow>
      ?out ! i = \<lparr>SpineItem.IDRef = OPFItemref.IDRef (?sp ! i),
                   Href = Dir (RootFile info), Type = [], Title = []\<rparr>
      \<and> SpineItem.Href (?out ! i) \<noteq> []"
    by (auto simp: spineEntry_def itemsByID_absent zeroItem_def normJoin_def Dir_not_Nil)
  with GetSpine_map [OF b] Dir_not_Nil [of "RootFile info"]
  show "\<exists>out. GetSpine (fst st') k = Some out \<and> length out = length ?sp
          \<and> (\<forall>i < length ?sp.
                OPFItemref.IDRef (?sp ! i) \<notin> OPFItem.ID ` set (Manifest (OPF info)) \<longrightarrow>
                out ! i = \<lparr>SpineItem.IDRef = OPFItemref.IDRef (?sp ! i),
                           Href = Dir (RootFile info), Type = [], Title = []\<rparr>
                \<and> SpineItem.Href (out ! i) \<noteq> [])"
    by simp
next
  fix g
  show "fst (ingest
                   (env\<lparr>UnmarshalPackage :=
                      (\<lambda>data. map_sum (\<lambda>e. e) (\<lambda>p. p\<lparr>Spine := g (Spine p)\<rparr>)
                                (UnmarshalPackage env data))\<rparr>)
                   now upload header st)
              = Inr (k, info\<lparr>OPF := (OPF info)\<lparr>Spine := g (Spine (OPF info))\<rparr>\<rparr>)"
    by (simp add: ingest_decode_spine assms)
qed

lemma second_spine:
  "GetSpine second_store ''e81b4e81b4e8'' =
     Some [\<lparr>SpineItem.IDRef = ''c1'', Href = ''OEBPS/chap1.xhtml'',
             Type = ''application/xhtml+xml'', Title = []\<rparr>,
           \<lparr>SpineItem.IDRef = ''ghost'', Href = ''OEBPS'', Type = [], Title = []\<rparr>]"
  by (simp add: GetSpine_def GetBookByID_def second_store_def second_info_def second_opf_def
      zeroItem_def path_eval)

lemma example_spine:
  "GetSpine example_store ''e6f8091a2b3c'' =
     Some [\<lparr>SpineItem.IDRef = ''c1'', Href = ''OEBPS/chap1.xhtml'',
             Type = ''application/xhtml+xml'', Title = []\<rparr>]"
  by (simp add: GetSpine_def GetBookByID_def example_store_def example_info_def example_opf_def
      zeroItem_def path_eval)

lemma example_toc:
  "GetTOC example_store ''e6f8091a2b3c'' =
     Some \<lparr>Items = [\<lparr>NavItem.Href = ''chap1.xhtml'', Text = ''Chapter 1''\<rparr>]\<rparr>"
  by (simp add: GetTOC_def GetBookByID_def example_store_def example_info_def)

theorem C2_unmatched_spine_entry_witness:
  "ingest example_env 1700000000000000001 ''PK-second'' example_header
        (example_store, example_disk)
     = (Inr (''e81b4e81b4e8'', second_info), (second_store, second_unpacked example_disk))
   \<and> OPFItemref.IDRef (Spine second_opf ! 1) = ''ghost''
   \<and> ''ghost'' \<notin> OPFItem.ID ` set (Manifest second_opf)
   \<and> (\<exists>out. GetSpine second_store ''e81b4e81b4e8'' = Some out
          \<and> out ! 1 = \<lparr>SpineItem.IDRef = ''ghost'', Href = Dir ''OEBPS/content.opf'',
                         Type = [], Title = []\<rparr>)"
proof -
  have sp: "OPFItemref.IDRef (Spine second_opf ! 1) = ''ghost''"
    and len: "1 < length (Spine second_opf)"
    and ghost: "''ghost'' \<notin> OPFItem.ID ` set (Manifest second_opf)"
    by (simp_all add: second_opf_def)
  have info: "OPF second_info = second_opf" "RootFile second_info = ''OEBPS/content.opf''"
    by (simp_all add: second_info_def)
  from C2_unmatched_spine_entry_resolves_to_package_directory [OF second_ingest]
  obtain out where "GetSpine (fst (second_store, second_unpacked example_disk)) ''e81b4e81b4e8''
        = Some out"
    and "\<forall>i < length (Spine (OPF second_info)).
          OPFItemref.IDRef (Spine (OPF second_info) ! i)
            \<notin> OPFItem.ID ` set (Manifest (OPF second_info)) \<longrightarrow>
          out ! i = \<lparr>SpineItem.IDRef = OPFItemref.IDRef (Spine (OPF second_info) ! i),
                     Href = Dir (RootFile second_info), Type = [], Title = []\<rparr>
          \<and> SpineItem.Href (out ! i) \<noteq> []"
    by blast
  with sp len ghost info
  have "GetSpine second_store ''e81b4e81b4e8'' = Some out
      \<and> out ! 1 = \<lparr>SpineItem.IDRef = ''ghost'', Href = Dir ''OEBPS/content.opf'',
                     Type = [], Title = []\<rparr>"
    by simp
  with second_ingest sp ghost show ?thesis by blast
qed

theorem C2_unmatched_spine_entry_counterexample:
  "ingest example_env 1700000000000000001 ''PK-second'' example_header
        (example_store, example_disk)
     = (Inr (''e81b4e81b4e8'', second_info), (second_store, second_unpacked example_disk))
   \<and> Manifest (OPF second_info)
       = [\<lparr>OPFItem.ID = ''c1'', Href = ''chap1.xhtml'', MediaType = ''application/xhtml+xml''\<rparr>]
   \<and> Spine (OPF second_info) = [\<lparr>OPFItemref.IDRef = ''c1''\<rparr>, \<lparr>OPFItemref.IDRef = ''ghost''\<rparr>]
   \<and> GetSpine second_store ''e81b4e81b4e8'' =
       Some [\<lparr>SpineItem.IDRef = ''c1'', Href = ''OEBPS/chap1.xhtml'',
               Type = ''application/xhtml+xml'', Title = []\<rparr>,
             \<lparr>SpineItem.IDRef = ''ghost'', Href = ''OEBPS'', Type = [], Title = []\<rparr>]"
proof -
  have "Manifest (OPF second_info)
       = [\<lparr>OPFItem.ID = ''c1'', Href = ''chap1.xhtml'', MediaType = ''application/xhtml+xml''\<rparr>]"
    and "Spine (OPF second_info) = [\<lparr>OPFItemref.IDRef = ''c1''\<rparr>, \<lparr>OPFItemref.IDRef = ''ghost''\<rparr>]"
    by (simp_all add: second_info_def second_opf_def)
  with second_ingest second_spine show ?thesis by blast
qed

text \<open>
  C1.  The claim: for every catalogued book the hrefs exposed by the read operations are
  resolved relative to the root of the archive, so that for the archive of the
  end-to-end scenario \<open>GetSpine\<close> returns the entry \<open>c1\<close> with href
  \<open>OEBPS/chap1.xhtml\<close> and \<open>GetTOC\<close> returns the entry \<open>Chapter 1\<close> with href
  \<open>OEBPS/chap1.xhtml\<close>.  The code run on that archive: \<open>GetSpine\<close> answers as claimed,
  but \<open>extractNav\<close> stores the href as it stands in the navigation document, so
  \<open>GetTOC\<close> answers \<open>chap1.xhtml\<close>.  The file route joins a requested path to
  \<open>RootFS\<close>: under the href of the spine there is the chapter, under the href of the
  table of contents there is no file.
\<close>

theorem C1_toc_href_not_resolved:
  "ingest example_env 1700000000000000000 ''PK-example'' example_header example_start
     = (Inr (''e6f8091a2b3c'', example_info), (example_store, example_disk))
   \<and> RootFile example_info = ''OEBPS/content.opf''
   \<and> example_disk (Join [RootFS example_info, FromSlash ''OEBPS/nav.xhtml'']) = Some example_nav
   \<and> GetSpine example_store ''e6f8091a2b3c''
       = Some [\<lparr>SpineItem.IDRef = ''c1'', Href = ''OEBPS/chap1.xhtml'',
                 Type = ''application/xhtml+xml'', Title = []\<rparr>]
   \<and> GetTOC example_store ''e6f8091a2b3c''
       = Some \<lparr>Items = [\<lparr>NavItem.Href = ''chap1.xhtml'', Text = ''Chapter 1''\<rparr>]\<rparr>
   \<and> GetTOC example_store ''e6f8091a2b3c''
       \<noteq> Some \<lparr>Items = [\<lparr>NavItem.Href = ''OEBPS/chap1.xhtml'', Text = ''Chapter 1''\<rparr>]\<rparr>
   \<and> example_disk (Join [RootFS example_info, FromSlash ''OEBPS/chap1.xhtml'']) = Some ''<html/>''
   \<and> example_disk (Join [RootFS example_info, FromSlash ''chap1.xhtml'']) = None"
proof -
  have info: "RootFile example_info = ''OEBPS/content.opf''"
    and fs: "RootFS example_info = ''data/books/e6f8091a2b3c/unpacked''"
    by (simp_all add: example_info_def)
  have paths:
    "Join [''data/books/e6f8091a2b3c/unpacked'', FromSlash ''OEBPS/nav.xhtml'']
       = ''data/books/e6f8091a2b3c/unpacked/OEBPS/nav.xhtml''"
    "Join [''data/books/e6f8091a2b3c/unpacked'', FromSlash ''OEBPS/chap1.xhtml'']
       = ''data/books/e6f8091a2b3c/unpacked/OEBPS/chap1.xhtml''"
    "Join [''data/books/e6f8091a2b3c/unpacked'', FromSlash ''chap1.xhtml'']
       = ''data/books/e6f8091a2b3c/unpacked/chap1.xhtml''"
    by (simp_all add: path_eval)
  have nav: "example_disk (Join [RootFS example_info, FromSlash ''OEBPS/nav.xhtml''])
      = Some example_nav"
    unfolding fs paths by (simp add: example_disk_def example_unpacked_def)
  have there: "example_disk (Join [RootFS example_info, FromSlash ''OEBPS/chap1.xhtml''])
      = Some ''<html/>''"
    unfolding fs paths by (simp add: example_disk_def example_unpacked_def)
  have missing: "example_disk (Join [RootFS example_info, FromSlash ''chap1.xhtml'']) = None"
    unfolding fs paths by (simp add: example_disk_def example_unpacked_def)
  have differs: "GetTOC example_store ''e6f8091a2b3c''
       \<noteq> Some \<lparr>Items = [\<lparr>NavItem.Href = ''OEBPS/chap1.xhtml'', Text = ''Chapter 1''\<rparr>]\<rparr>"
    unfolding example_toc by simp
  from example_ingest info nav example_spine example_toc differs there missing
  show ?thesis by blast
qed











lemma Index_ge_minus_one: "- 1 \<le> Index s substr"
  by (induction s) (auto simp: Let_def)












text \<open>
  C5.  For every archive that is ingested, \<open>GetBook\<close> returns a record whose title is the
  text of the Dublin Core title element of the package document, trimmed of surrounding
  white space, and whose author is the text of the creator element, trimmed likewise:
  what is cut off before and after consists of white space, and what remains neither
  starts nor ends with white space.  An absent element leaves the empty string in the
  decoded package, and the field is then the empty string; no error is raised.
\<close>

theorem C5_title_and_author_trimmed:
  assumes "ingest env now upload header st = (Inr (k, info), st')"
  shows "parseOPF env (snd st') (Join [RootFS info, FromSlash (RootFile info)]) = Inr (OPF info)
     \<and> (\<exists>b. GetBook (fst st') k = Some b \<and> json_id b = k
          \<and> json_title b = TrimSpace (OPFMetadata.Title (Meta (OPF info)))
          \<and> json_author b = TrimSpace (Creator (Meta (OPF info)))
          \<and> (\<exists>l r. OPFMetadata.Title (Meta (OPF info)) = l @ json_title b @ r
                \<and> list_all IsSpace (runes l) \<and> list_all IsSpace (runes r))
          \<and> (json_title b = [] \<or>
                (\<not> IsSpace (fst (DecodeRuneInString (json_title b)))
                 \<and> \<not> IsSpace (fst (DecodeLastRuneInString (json_title b)))))
          \<and> (\<exists>l r. Creator (Meta (OPF info)) = l @ json_author b @ r
                \<and> list_all IsSpace (runes l) \<and> list_all IsSpace (runes r))
          \<and> (json_author b = [] \<or>
                (\<not> IsSpace (fst (DecodeRuneInString (json_author b)))
                 \<and> \<not> IsSpace (fst (DecodeLastRuneInString (json_author b)))))
          \<and> (OPFMetadata.Title (Meta (OPF info)) = [] \<longrightarrow> json_title b = [])
          \<and> (Creator (Meta (OPF info)) = [] \<longrightarrow> json_author b = []))"
proof
  from ingest_steps [OF assms]
  show "parseOPF env (snd st') (Join [RootFS info, FromSlash (RootFile info)]) = Inr (OPF info)"
    by blast
next
  let ?b = "bookJSON info"
  let ?title = "OPFMetadata.Title (Meta (OPF info))"
  let ?creator = "Creator (Meta (OPF info))"
  from ingest_Inr [OF assms] have "books (fst st') k = Some info" and id: "BookInfo.ID info = k"
    by simp_all
  then have g: "GetBook (fst st') k = Some ?b"
    by (simp add: GetBook_def GetBookByID_def)
  from ingest_info [OF assms]
  have t: "json_title ?b = TrimSpace ?title" and a: "json_author ?b = TrimSpace ?creator"
    by (simp_all add: bookJSON_def)
  from id have i: "json_id ?b = k" by (simp add: bookJSON_def)
  from TrimSpace_spec [of ?title]
  have t1: "\<exists>l r. ?title = l @ json_title ?b @ r
                \<and> list_all IsSpace (runes l) \<and> list_all IsSpace (runes r)"
    and t2: "json_title ?b = [] \<or>
                (\<not> IsSpace (fst (DecodeRuneInString (json_title ?b)))
                 \<and> \<not> IsSpace (fst (DecodeLastRuneInString (json_title ?b))))"
    unfolding t by blast+
  from TrimSpace_spec [of ?creator]
  have a1: "\<exists>l r. ?creator = l @ json_author ?b @ r
                \<and> list_all IsSpace (runes l) \<and> list_all IsSpace (runes r)"
    and a2: "json_author ?b = [] \<or>
                (\<not> IsSpace (fst (DecodeRuneInString (json_author ?b)))
                 \<and> \<not> IsSpace (fst (DecodeLastRuneInString (json_author ?b))))"
    unfolding a by blast+
  have t3: "?title = [] \<longrightarrow> json_title ?b = []"
    and a3: "?creator = [] \<longrightarrow> json_author ?b = []"
    by (simp_all add: t a TrimSpace_Nil)
  from g i t a t1 t2 a1 a2 t3 a3
  show "\<exists>b. GetBook (fst st') k = Some b \<and> json_id b = k
          \<and> json_title b = TrimSpace ?title
          \<and> json_author b = TrimSpace ?creator
          \<and> (\<exists>l r. ?title = l @ json_title b @ r
                \<and> list_all IsSpace (runes l) \<and> list_all IsSpace (runes r))
          \<and> (json_title b = [] \<or>
                (\<not> IsSpace (fst (DecodeRuneInString (json_title b)))
                 \<and> \<not> IsSpace (fst (DecodeLastRuneInString (json_title b)))))
          \<and> (\<exists>l r. ?creator = l @ json_author b @ r
                \<and> list_all IsSpace (runes l) \<and> list_all IsSpace (runes r))
          \<and> (json_author b = [] \<or>
                (\<not> IsSpace (fst (DecodeRuneInString (json_author b)))
                 \<and> \<not> IsSpace (fst (DecodeLastRuneInString (json_author b)))))
          \<and> (?title = [] \<longrightarrow> json_title b = [])
          \<and> (?creator = [] \<longrightarrow> json_author b = [])"
    by (intro exI [of _ ?b] conjI)
qed

theorem C5_title_and_author_witness:
  "ingest example_env 1700000000000000000 ''PK-example'' example_header example_start
     = (Inr (''e6f8091a2b3c'', example_info), (example_store, example_disk))
   \<and> OPFMetadata.Title (Meta (OPF example_info)) = ''  A Tale ''
   \<and> Creator (Meta (OPF example_info)) = ''Jane Doe''
   \<and> GetBook example_store ''e6f8091a2b3c''
       = Some \<lparr>json_id = ''e6f8091a2b3c'', json_title = ''A Tale'', json_author = ''Jane Doe'',
                json_rootFile = ''OEBPS/content.opf''\<rparr>
   \<and> ingest example_env 1700000000000000001 ''PK-second'' example_header
        (example_store, example_disk)
     = (Inr (''e81b4e81b4e8'', second_info), (second_store, second_unpacked example_disk))
   \<and> OPFMetadata.Title (Meta (OPF second_info)) = []
   \<and> (\<exists>b. GetBook second_store ''e81b4e81b4e8'' = Some b \<and> json_title b = []
          \<and> json_author b = ''Jane Doe'')"
proof -
  have m1: "OPFMetadata.Title (Meta (OPF example_info)) = ''  A Tale ''"
    "Creator (Meta (OPF example_info)) = ''Jane Doe''"
    by (simp_all add: example_info_def example_opf_def)
  have m2: "OPFMetadata.Title (Meta (OPF second_info)) = []"
    "Creator (Meta (OPF second_info)) = '' Jane Doe'' @ [CHR 0x0A]"
    by (simp_all add: second_info_def second_opf_def)
  from C5_title_and_author_trimmed [OF example_ingest]
  obtain b where b: "GetBook (fst (example_store, example_disk)) ''e6f8091a2b3c'' = Some b"
    and "json_id b = ''e6f8091a2b3c''"
    and "json_title b = TrimSpace (OPFMetadata.Title (Meta (OPF example_info)))"
    and "json_author b = TrimSpace (Creator (Meta (OPF example_info)))"
    by blast
  then have f: "json_id b = ''e6f8091a2b3c''" "json_title b = ''A Tale''"
    "json_author b = ''Jane Doe''"
    unfolding m1 using example_trim by simp_all
  from b have "json_rootFile b = ''OEBPS/content.opf''"
    by (auto simp: GetBook_def GetBookByID_def example_store_def bookJSON_def example_info_def)
  with f have "b = \<lparr>json_id = ''e6f8091a2b3c'', json_title = ''A Tale'', json_author = ''Jane Doe'',
                json_rootFile = ''OEBPS/content.opf''\<rparr>"
    by (cases b) simp
  with b have g1: "GetBook example_store ''e6f8091a2b3c''
       = Some \<lparr>json_id = ''e6f8091a2b3c'', json_title = ''A Tale'', json_author = ''Jane Doe'',
                json_rootFile = ''OEBPS/content.opf''\<rparr>"
    by simp
  from C5_title_and_author_trimmed [OF second_ingest]
  obtain c where c: "GetBook (fst (second_store, second_unpacked example_disk)) ''e81b4e81b4e8''
        = Some c"
    and "json_author c = TrimSpace (Creator (Meta (OPF second_info)))"
    and "OPFMetadata.Title (Meta (OPF second_info)) = [] \<longrightarrow> json_title c = []"
    by blast
  then have "json_title c = []" "json_author c = ''Jane Doe''"
    unfolding m2 using example_trim by simp_all
  with c have g2: "\<exists>b. GetBook second_store ''e81b4e81b4e8'' = Some b \<and> json_title b = []
          \<and> json_author b = ''Jane Doe''"
    by simp
  from example_ingest second_ingest m1 m2(1) g1 g2 show ?thesis by blast
qed

end
